theory Spec2Isabelle
  imports Complex_Main
begin

section \<open>Distributed-circuit transmission-line mode (skrf.media.distributedCircuit)\<close>

text \<open>
  The development follows \<^verbatim>\<open>src/skrf/media/distributedCircuit.py\<close>.
  float64 and complex128 samples are idealised as \<^typ>\<open>real\<close> and \<^typ>\<open>complex\<close>:
  rounding, overflow and signed zeros are not represented, so an equation of this theory is
  the exact law that the floating-point result approximates. A division whose divisor is zero
  gives inf or nan in numpy (with a warning, no exception); the idealisation has no such
  sample and stops there with the outcome \<open>NonFinite\<close>.
\<close>

subsection \<open>Outcomes\<close>

datatype exn = AttributeError | ValueError | TypeError | IndexError

text \<open>
  \<open>Unmodelled\<close> marks a store that no run of the program reaches (a dangling reference)
  or that the real-valued parameters of this theory do not cover (a complex parameter array).
\<close>

datatype failure = Raise exn | NonFinite | Unmodelled

subsection \<open>numpy values and broadcasting\<close>

text \<open>A parameter is a Python number or a one-dimensional array (a list is converted to one).\<close>

datatype 'a nd = Scalar 'a | Array "'a list"

text \<open>
  Elementwise binary operation of an array with a number or another array. Two
  one-dimensional shapes broadcast when they are equal or one of them is 1; otherwise numpy
  raises ValueError.
\<close>

definition broadcast_arrays :: "('a \<Rightarrow> 'b \<Rightarrow> 'c) \<Rightarrow> 'a list \<Rightarrow> 'b list \<Rightarrow> failure + 'c list" where
  "broadcast_arrays f xs ys =
     (if length xs = length ys then Inr (map2 f xs ys)
      else if length ys = 1 then Inr (map (\<lambda>x. f x (hd ys)) xs)
      else if length xs = 1 then Inr (map (f (hd xs)) ys)
      else Inl (Raise ValueError))"

fun broadcast :: "('a \<Rightarrow> 'b \<Rightarrow> 'c) \<Rightarrow> 'a list \<Rightarrow> 'b nd \<Rightarrow> failure + 'c list" where
  "broadcast f xs (Scalar b) = Inr (map (\<lambda>x. f x b) xs)"
| "broadcast f xs (Array ys) = broadcast_arrays f xs ys"

text \<open>Array division: a zero divisor makes the sample inf or nan.\<close>

definition divide_arrays :: "'a::field list \<Rightarrow> 'a list \<Rightarrow> failure + 'a list" where
  "divide_arrays xs ys =
     (case broadcast_arrays Pair xs ys of
        Inl e \<Rightarrow> Inl e
      | Inr ps \<Rightarrow> if list_ex (\<lambda>p. snd p = 0) ps then Inl NonFinite
                  else Inr (map (\<lambda>p. fst p / snd p) ps))"

subsection \<open>The frequency grid and the mode\<close>

text \<open>
  The frequency grid is an external object; the mode reads its angular frequencies \<open>w\<close> and,
  for rendering, \<open>f_scaled\<close>, \<open>unit\<close> and \<open>npoints\<close>.
\<close>

record Frequency =
  w :: "real list"
  f_scaled :: "real list"
  unit :: string
  npoints :: nat

text \<open>
  What \<^verbatim>\<open>from_media\<close> reads of an existing media: its grid, \<open>gamma\<close>, \<open>z0\<close>
  (complex arrays) and \<open>z0_port\<close>.
\<close>

record Media =
  frequency :: Frequency
  gamma :: "complex list"
  z0 :: "complex list"
  z0_port :: "complex nd option"

record DistributedCircuit =
  frequency :: "Frequency option"
  z0_port :: "complex nd option"
  z0_override :: "complex nd option"
  C :: "real nd"
  L :: "real nd"
  R :: "real nd"
  G :: "real nd"

text \<open>
  Modelled from the spec: \<^verbatim>\<open>Media.__init__\<close> of the media base is not part of the
  sources. It keeps the frequency grid and the port impedance as given, and the
  characteristic-impedance override, for which the legacy alias \<open>z0\<close> stands in only when
  the canonical override is absent. It raises nothing, also without a grid.
\<close>

definition Media_init ::
  "Frequency option \<Rightarrow> complex nd option \<Rightarrow> complex nd option \<Rightarrow> complex nd option
    \<Rightarrow> Frequency option \<times> complex nd option \<times> complex nd option" where
  "Media_init frequency_arg z0_port_arg z0_override_arg z0_arg =
     (frequency_arg, z0_port_arg,
      (case z0_override_arg of None \<Rightarrow> z0_arg | Some v \<Rightarrow> Some v))"

text \<open>
  \<^verbatim>\<open>DistributedCircuit.__init__\<close>. An omitted keyword argument is \<open>None\<close> here; the
  defaults of the signature are \<open>C = 90e-12\<close>, \<open>L = 280e-9\<close>, \<open>R = 0\<close>, \<open>G = 0\<close>.
\<close>

definition init ::
  "Frequency option \<Rightarrow> complex nd option \<Rightarrow> complex nd option \<Rightarrow> complex nd option
    \<Rightarrow> real nd option \<Rightarrow> real nd option \<Rightarrow> real nd option \<Rightarrow> real nd option
    \<Rightarrow> DistributedCircuit" where
  "init frequency_arg z0_port_arg z0_override_arg z0_arg C_arg L_arg R_arg G_arg =
     (case Media_init frequency_arg z0_port_arg z0_override_arg z0_arg of
        (fr, zp, zo) \<Rightarrow>
          \<lparr> frequency = fr, z0_port = zp, z0_override = zo,
            C = (case C_arg of None \<Rightarrow> Scalar (90 / 10 ^ 12) | Some v \<Rightarrow> v),
            L = (case L_arg of None \<Rightarrow> Scalar (280 / 10 ^ 9) | Some v \<Rightarrow> v),
            R = (case R_arg of None \<Rightarrow> Scalar 0 | Some v \<Rightarrow> v),
            G = (case G_arg of None \<Rightarrow> Scalar 0 | Some v \<Rightarrow> v) \<rparr>)"

subsection \<open>Distributed impedance and admittance\<close>

text \<open>\<^verbatim>\<open>A[A.imag == 0] += 1j*1e-12\<close> on a one-dimensional complex array.\<close>

definition nudge :: "complex \<Rightarrow> complex" where
  "nudge z = (if Im z = 0 then z + \<i> * (1 / 10 ^ 12) else z)"

text \<open>
  \<^verbatim>\<open>P + 1j*w*Q\<close>: the product \<open>1j*w\<close> first, then times \<open>Q\<close>, then \<open>P\<close> plus the
  result, each with broadcasting.
\<close>

definition series :: "real list \<Rightarrow> real nd \<Rightarrow> real nd \<Rightarrow> failure + complex list" where
  "series ws P Q =
     (case broadcast (\<lambda>z q. z * complex_of_real q) (map (\<lambda>x. \<i> * complex_of_real x) ws) Q of
        Inl e \<Rightarrow> Inl e
      | Inr jwq \<Rightarrow> broadcast (\<lambda>z p. complex_of_real p + z) jwq P)"

definition Z :: "DistributedCircuit \<Rightarrow> failure + complex list" where
  "Z self =
     (case frequency self of
        None \<Rightarrow> Inl (Raise AttributeError)
      | Some f \<Rightarrow>
          (case series (w f) (R self) (L self) of
             Inl e \<Rightarrow> Inl e
           | Inr Z0 \<Rightarrow> Inr (map nudge Z0)))"

definition Y :: "DistributedCircuit \<Rightarrow> failure + complex list" where
  "Y self =
     (case frequency self of
        None \<Rightarrow> Inl (Raise AttributeError)
      | Some f \<Rightarrow>
          (case series (w f) (G self) (C self) of
             Inl e \<Rightarrow> Inl e
           | Inr Y0 \<Rightarrow> Inr (map nudge Y0)))"

subsection \<open>Wave descriptors\<close>

text \<open>
  \<^verbatim>\<open>numpy.sqrt\<close> on a complex array is the principal square root of each sample. These
  are the values over the complex numbers, where a zero has no sign; \<open>gamma_signed\<close> and
  \<open>z0_characteristic_signed\<close> below keep it.
\<close>

definition z0_characteristic :: "DistributedCircuit \<Rightarrow> failure + complex list" where
  "z0_characteristic self =
     (case Z self of
        Inl e \<Rightarrow> Inl e
      | Inr zs \<Rightarrow>
          (case Y self of
             Inl e \<Rightarrow> Inl e
           | Inr ys \<Rightarrow>
               (case divide_arrays zs ys of
                  Inl e \<Rightarrow> Inl e
                | Inr q \<Rightarrow> Inr (map csqrt q))))"

definition gamma :: "DistributedCircuit \<Rightarrow> failure + complex list" where
  "gamma self =
     (case Z self of
        Inl e \<Rightarrow> Inl e
      | Inr zs \<Rightarrow>
          (case Y self of
             Inl e \<Rightarrow> Inl e
           | Inr ys \<Rightarrow>
               (case broadcast_arrays (*) zs ys of
                  Inl e \<Rightarrow> Inl e
                | Inr p \<Rightarrow> Inr (map csqrt p))))"

subsection \<open>Inverse construction\<close>

text \<open>
  \<^verbatim>\<open>from_media\<close>: \<open>Y = gamma/z0\<close>, \<open>Z = gamma*z0\<close>, then
  \<open>G, C = real(Y), imag(Y)/w\<close> and \<open>R, L = real(Z), imag(Z)/w\<close>, in this order, and the
  constructor with the grid and the port impedance of the source.
\<close>

definition from_media :: "Media \<Rightarrow> failure + DistributedCircuit" where
  "from_media my_media =
     (let ws = w (Media.frequency my_media);
          gamma1 = Media.gamma my_media;
          z01 = Media.z0 my_media;
          z0_port1 = Media.z0_port my_media
      in case divide_arrays gamma1 z01 of
           Inl e \<Rightarrow> Inl e
         | Inr Y1 \<Rightarrow>
        (case broadcast_arrays (*) gamma1 z01 of
           Inl e \<Rightarrow> Inl e
         | Inr Z1 \<Rightarrow>
        (case divide_arrays (map Im Y1) ws of
           Inl e \<Rightarrow> Inl e
         | Inr C1 \<Rightarrow>
        (case divide_arrays (map Im Z1) ws of
           Inl e \<Rightarrow> Inl e
         | Inr L1 \<Rightarrow>
             Inr (init (Some (Media.frequency my_media)) z0_port1 None None
                    (Some (Array C1)) (Some (Array L1))
                    (Some (Array (map Re Z1))) (Some (Array (map Re Y1))))))))"

subsection \<open>Diagnostic rendering\<close>

text \<open>
  \<^verbatim>\<open>__str__\<close>. How Python prints a float (\<open>show_float\<close>, the empty format
  specification), prints an integer (\<open>show_int\<close>) and formats a number with \<open>.2f\<close>
  (\<open>fmt\<close>) are parameters. The format specification \<open>.2f\<close> on an array of one or more
  dimensions raises TypeError (\<^verbatim>\<open>ndarray.__format__\<close>, and likewise a list).
\<close>

definition format_2f :: "(real \<Rightarrow> string) \<Rightarrow> real nd \<Rightarrow> failure + string" where
  "format_2f fmt p = (case p of Scalar x \<Rightarrow> Inr (fmt x) | Array xs \<Rightarrow> Inl (Raise TypeError))"

definition header :: "(real \<Rightarrow> string) \<Rightarrow> (nat \<Rightarrow> string) \<Rightarrow> Frequency \<Rightarrow> failure + string" where
  "header show_float show_int f =
     (if f_scaled f = [] then Inl (Raise IndexError)
      else Inr (''Distributed Circuit Media.  '' @ show_float (hd (f_scaled f)) @ ''-''
                @ show_float (last (f_scaled f)) @ '' '' @ unit f @ ''.  ''
                @ show_int (npoints f) @ '' points''))"

text \<open>
  One evaluation of the f-string: the header fields, then \<open>L\<close>, \<open>C\<close>, \<open>R\<close>, \<open>G\<close> in
  this order, each formatted with \<open>.2f\<close> and followed by \<open>sfx\<close>.
\<close>

definition render ::
  "(real \<Rightarrow> string) \<Rightarrow> (nat \<Rightarrow> string) \<Rightarrow> (real \<Rightarrow> string) \<Rightarrow> string
    \<Rightarrow> Frequency \<Rightarrow> DistributedCircuit \<Rightarrow> failure + string" where
  "render show_float show_int fmt sfx f self =
     (case header show_float show_int f of Inl e \<Rightarrow> Inl e | Inr h \<Rightarrow>
     (case format_2f fmt (L self) of Inl e \<Rightarrow> Inl e | Inr l \<Rightarrow>
     (case format_2f fmt (C self) of Inl e \<Rightarrow> Inl e | Inr c \<Rightarrow>
     (case format_2f fmt (R self) of Inl e \<Rightarrow> Inl e | Inr r \<Rightarrow>
     (case format_2f fmt (G self) of Inl e \<Rightarrow> Inl e | Inr g \<Rightarrow>
        Inr (h @ [CHR 0x0A] @ ''L'' @ [CHR 0x27] @ ''= '' @ l @ sfx
               @ '', C'' @ [CHR 0x27] @ ''= '' @ c @ sfx
               @ '',R'' @ [CHR 0x27] @ ''= '' @ r @ sfx
               @ '', G'' @ [CHR 0x27] @ ''= '' @ g @ sfx @ '', ''))))))"

definition str ::
  "(real \<Rightarrow> string) \<Rightarrow> (nat \<Rightarrow> string) \<Rightarrow> (real \<Rightarrow> string)
    \<Rightarrow> DistributedCircuit \<Rightarrow> failure + string" where
  "str show_float show_int fmt self =
     (case frequency self of
        None \<Rightarrow> Inl (Raise AttributeError)
      | Some f \<Rightarrow>
          (case render show_float show_int fmt [] f self of
             Inl (Raise TypeError) \<Rightarrow> render show_float show_int fmt ''..'' f self
           | r \<Rightarrow> r))"

subsection \<open>Well-shaped parameters\<close>

text \<open>
  The data model asks of a vector-valued parameter the length \<open>N\<close> of the grid;
  \<open>sample p k\<close> is then the value of the parameter at sample \<open>k\<close>.
\<close>

definition shaped :: "nat \<Rightarrow> 'a nd \<Rightarrow> bool" where
  "shaped n p = (case p of Scalar a \<Rightarrow> True | Array xs \<Rightarrow> length xs = n)"

definition sample :: "'a nd \<Rightarrow> nat \<Rightarrow> 'a" where
  "sample p k = (case p of Scalar a \<Rightarrow> a | Array xs \<Rightarrow> xs ! k)"

text \<open>
  The length of the array numpy returns for an array of length \<open>n\<close> combined with the
  parameter \<open>p\<close>, or \<open>None\<close> when the two shapes do not broadcast; and the same for
  \<^verbatim>\<open>P + 1j*w*Q\<close> over a grid of \<open>n\<close> samples, where \<open>Q\<close> meets the grid first and \<open>P\<close>
  the product.
\<close>

fun broadcast_len :: "nat \<Rightarrow> 'a nd \<Rightarrow> nat option" where
  "broadcast_len n (Scalar b) = Some n"
| "broadcast_len n (Array ys) =
     (if n = length ys then Some n
      else if length ys = 1 then Some n
      else if n = 1 then Some (length ys)
      else None)"

definition series_len :: "nat \<Rightarrow> 'a nd \<Rightarrow> 'b nd \<Rightarrow> nat option" where
  "series_len n P Q = (case broadcast_len n Q of None \<Rightarrow> None | Some k \<Rightarrow> broadcast_len k P)"

subsection \<open>Wave descriptors with the sign of zero\<close>























subsection \<open>The same properties on a store of arrays\<close>

text \<open>
  numpy arrays are mutable objects and the guard of \<open>Z\<close> and \<open>Y\<close> updates one in place.
  Here an attribute holds a Python number or the address of an array, every numpy operation
  allocates its result, and the in-place update writes to the address it is given. An address
  is an index into the store; allocation appends.
\<close>

datatype ndarray = Float64 "real list" | Complex128 "complex list"

type_synonym store = "ndarray list"

datatype pyval = Num real | Ref nat

record DistributedCircuit_obj =
  frequency_w :: "nat option"
  C_attr :: pyval
  L_attr :: pyval
  R_attr :: pyval
  G_attr :: pyval

definition alloc :: "store \<Rightarrow> ndarray \<Rightarrow> nat \<times> store" where
  "alloc h v = (length h, h @ [v])"

definition fetch_float64 :: "store \<Rightarrow> nat \<Rightarrow> real list option" where
  "fetch_float64 h a =
     (if a < length h then (case h ! a of Float64 xs \<Rightarrow> Some xs | Complex128 zs \<Rightarrow> None)
      else None)"

definition fetch_complex128 :: "store \<Rightarrow> nat \<Rightarrow> complex list option" where
  "fetch_complex128 h a =
     (if a < length h then (case h ! a of Float64 xs \<Rightarrow> None | Complex128 zs \<Rightarrow> Some zs)
      else None)"

definition fetch_param :: "store \<Rightarrow> pyval \<Rightarrow> real nd option" where
  "fetch_param h v =
     (case v of Num x \<Rightarrow> Some (Scalar x) | Ref a \<Rightarrow> map_option Array (fetch_float64 h a))"

text \<open>\<^verbatim>\<open>A[A.imag == 0] += 1j*1e-12\<close> on the array at address \<open>a\<close>.\<close>

definition nudge_inplace :: "store \<Rightarrow> nat \<Rightarrow> store" where
  "nudge_inplace h a =
     (case h ! a of Complex128 zs \<Rightarrow> h[a := Complex128 (map nudge zs)] | Float64 xs \<Rightarrow> h)"

text \<open>
  \<^verbatim>\<open>P + 1j*w*Q\<close> with the grid at address \<open>wa\<close>: three allocations, for \<open>1j*w\<close>, for
  its product with \<open>Q\<close> and for the sum.
\<close>

definition series_store :: "store \<Rightarrow> nat \<Rightarrow> pyval \<Rightarrow> pyval \<Rightarrow> (failure + nat) \<times> store" where
  "series_store h wa P Q =
     (case fetch_float64 h wa of
        None \<Rightarrow> (Inl Unmodelled, h)
      | Some ws \<Rightarrow>
          (case alloc h (Complex128 (map (\<lambda>x. \<i> * complex_of_real x) ws)) of (t1, h1) \<Rightarrow>
          (case (fetch_complex128 h1 t1, fetch_param h1 Q) of
             (Some jw, Some q) \<Rightarrow>
               (case broadcast (\<lambda>z q. z * complex_of_real q) jw q of
                  Inl e \<Rightarrow> (Inl e, h1)
                | Inr jwq \<Rightarrow>
                    (case alloc h1 (Complex128 jwq) of (t2, h2) \<Rightarrow>
                    (case (fetch_complex128 h2 t2, fetch_param h2 P) of
                       (Some x, Some p) \<Rightarrow>
                         (case broadcast (\<lambda>z p. complex_of_real p + z) x p of
                            Inl e \<Rightarrow> (Inl e, h2)
                          | Inr s \<Rightarrow> (case alloc h2 (Complex128 s) of (a, h3) \<Rightarrow> (Inr a, h3)))
                     | _ \<Rightarrow> (Inl Unmodelled, h2))))
           | _ \<Rightarrow> (Inl Unmodelled, h1))))"

definition Z_prop :: "DistributedCircuit_obj \<Rightarrow> store \<Rightarrow> (failure + nat) \<times> store" where
  "Z_prop self h =
     (case frequency_w self of
        None \<Rightarrow> (Inl (Raise AttributeError), h)
      | Some wa \<Rightarrow>
          (case series_store h wa (R_attr self) (L_attr self) of
             (Inl e, h1) \<Rightarrow> (Inl e, h1)
           | (Inr a, h1) \<Rightarrow> (Inr a, nudge_inplace h1 a)))"

definition Y_prop :: "DistributedCircuit_obj \<Rightarrow> store \<Rightarrow> (failure + nat) \<times> store" where
  "Y_prop self h =
     (case frequency_w self of
        None \<Rightarrow> (Inl (Raise AttributeError), h)
      | Some wa \<Rightarrow>
          (case series_store h wa (G_attr self) (C_attr self) of
             (Inl e, h1) \<Rightarrow> (Inl e, h1)
           | (Inr a, h1) \<Rightarrow> (Inr a, nudge_inplace h1 a)))"

text \<open>
  \<^verbatim>\<open>sqrt(self.Z/self.Y)\<close> and \<^verbatim>\<open>sqrt(self.Z*self.Y)\<close>: \<open>Z\<close> is read, then \<open>Y\<close>,
  then the quotient (the product) and its square root are allocated.
\<close>

definition wave_prop ::
  "(complex list \<Rightarrow> complex list \<Rightarrow> failure + complex list)
    \<Rightarrow> DistributedCircuit_obj \<Rightarrow> store \<Rightarrow> (failure + nat) \<times> store" where
  "wave_prop combine self h =
     (case Z_prop self h of
        (Inl e, h1) \<Rightarrow> (Inl e, h1)
      | (Inr za, h1) \<Rightarrow>
          (case Y_prop self h1 of
             (Inl e, h2) \<Rightarrow> (Inl e, h2)
           | (Inr ya, h2) \<Rightarrow>
               (case (fetch_complex128 h2 za, fetch_complex128 h2 ya) of
                  (Some zs, Some ys) \<Rightarrow>
                    (case combine zs ys of
                       Inl e \<Rightarrow> (Inl e, h2)
                     | Inr q \<Rightarrow>
                         (case alloc h2 (Complex128 q) of (t, h3) \<Rightarrow>
                         (case alloc h3 (Complex128 (map csqrt q)) of (a, h4) \<Rightarrow> (Inr a, h4))))
                | _ \<Rightarrow> (Inl Unmodelled, h2))))"

definition z0_characteristic_prop :: "DistributedCircuit_obj \<Rightarrow> store \<Rightarrow> (failure + nat) \<times> store" where
  "z0_characteristic_prop = wave_prop divide_arrays"

definition gamma_prop :: "DistributedCircuit_obj \<Rightarrow> store \<Rightarrow> (failure + nat) \<times> store" where
  "gamma_prop = wave_prop (broadcast_arrays (*))"

text \<open>The array a property returned, read from the store it left.\<close>

definition returned :: "(failure + nat) \<times> store \<Rightarrow> failure + complex list" where
  "returned rh =
     (case fst rh of
        Inl e \<Rightarrow> Inl e
      | Inr a \<Rightarrow> (case fetch_complex128 (snd rh) a of None \<Rightarrow> Inl Unmodelled | Some zs \<Rightarrow> Inr zs))"

text \<open>
  The object \<open>obj\<close> in the store \<open>h\<close> carries the grid and the parameters of the mode \<open>m\<close>.
\<close>

definition represents :: "store \<Rightarrow> DistributedCircuit_obj \<Rightarrow> DistributedCircuit \<Rightarrow> bool" where
  "represents h obj m =
     ((case (frequency_w obj, frequency m) of
         (None, None) \<Rightarrow> True
       | (Some wa, Some f) \<Rightarrow> fetch_float64 h wa = Some (w f)
       | _ \<Rightarrow> False)
      \<and> fetch_param h (C_attr obj) = Some (C m)
      \<and> fetch_param h (L_attr obj) = Some (L m)
      \<and> fetch_param h (R_attr obj) = Some (R m)
      \<and> fetch_param h (G_attr obj) = Some (G m))"

text \<open>The store \<open>h'\<close> keeps every array of \<open>h\<close> as it was.\<close>

definition preserves :: "store \<Rightarrow> store \<Rightarrow> bool" where
  "preserves h h' = (length h \<le> length h' \<and> take (length h) h' = h)"

subsection \<open>Concrete scenarios\<close>

text \<open>A grid that starts at DC, and the default (lossless) line over it.\<close>

definition dc_grid :: Frequency where
  "dc_grid = \<lparr> w = [0, 1], f_scaled = [0, 1], unit = ''Hz'', npoints = 2 \<rparr>"

definition dc_line :: DistributedCircuit where
  "dc_line = init (Some dc_grid) None None None None None None None"

text \<open>An external media over a grid without DC.\<close>

definition ex_media :: Media where
  "ex_media =
     \<lparr> Media.frequency = \<lparr> w = [1, 2], f_scaled = [1, 2], unit = ''Hz'', npoints = 2 \<rparr>,
       gamma = [1 + \<i>, 2 * \<i>], z0 = [1, 2], z0_port = Some (Scalar 50) \<rparr>"

text \<open>A lossless line with \<open>L = 4\<close> and \<open>C = 1\<close> over the one-sample grid \<open>w = 1\<close>.\<close>

definition unit_grid :: Frequency where
  "unit_grid = \<lparr> w = [1], f_scaled = [1], unit = ''Hz'', npoints = 1 \<rparr>"


text \<open>
  Lines over the two-sample grid with a vector parameter: \<open>L\<close> of the grid's length, \<open>R\<close>
  of length 1, and \<open>R\<close> of length 3.
\<close>

definition vector_line :: DistributedCircuit where
  "vector_line = init (Some dc_grid) None None None None (Some (Array [1, 2])) None None"

definition short_vector_line :: DistributedCircuit where
  "short_vector_line = init (Some dc_grid) None None None None None (Some (Array [5])) None"

definition long_vector_line :: DistributedCircuit where
  "long_vector_line = init (Some dc_grid) None None None None None (Some (Array [1, 2, 3])) None"

text \<open>A line over the one-sample grid with \<open>R\<close> of length 3 and \<open>G\<close> of length 4.\<close>

definition odd_line :: DistributedCircuit where
  "odd_line = init (Some unit_grid) None None None None None
                (Some (Array [1, 2, 3])) (Some (Array [1, 2, 3, 4]))"




text \<open>A line with a negative resistance over the one-sample grid.\<close>

definition gain_line :: DistributedCircuit where
  "gain_line = init (Some unit_grid) None None None
                 (Some (Scalar 4)) (Some (Scalar 6)) (Some (Scalar (- 8))) (Some (Scalar 3))"



text \<open>A lossy line with scalar parameters over a two-sample grid without DC.\<close>

definition two_grid :: Frequency where
  "two_grid = \<lparr> w = [1, 2], f_scaled = [1, 2], unit = ''Hz'', npoints = 2 \<rparr>"

definition lossy_line :: DistributedCircuit where
  "lossy_line = init (Some two_grid) None None None
                  (Some (Scalar 2)) (Some (Scalar 3)) (Some (Scalar (1 / 2))) (Some (Scalar (1 / 4)))"

text \<open>
  What a property did to the store \<open>h\<close>: the store it left keeps every array of \<open>h\<close>,
  an array it returned is a new one, and its outcome is \<open>v\<close>, the error it raised or the
  contents of the array it returned.
\<close>

definition reads :: "store \<Rightarrow> (failure + nat) \<times> store \<Rightarrow> failure + complex list \<Rightarrow> bool" where
  "reads h rh v =
     (preserves h (snd rh) \<and>
      (case fst rh of
         Inl e \<Rightarrow> v = Inl e
       | Inr a \<Rightarrow> length h \<le> a \<and>
           (case fetch_complex128 (snd rh) a of None \<Rightarrow> False | Some zs \<Rightarrow> v = Inr zs)))"

text \<open>The four derived quantities of \<open>obj\<close>, read in the store \<open>h\<close>, are those of \<open>m\<close>.\<close>

definition reads_all :: "store \<Rightarrow> DistributedCircuit_obj \<Rightarrow> DistributedCircuit \<Rightarrow> bool" where
  "reads_all h obj m =
     (returned (Z_prop obj h) = Z m \<and> returned (Y_prop obj h) = Y m \<and>
      returned (z0_characteristic_prop obj h) = z0_characteristic m \<and>
      returned (gamma_prop obj h) = gamma m)"

text \<open>
  A store with the grid \<open>w = [0, 1]\<close> at address 0 and an array \<open>[5, 6]\<close> at address 1, an
  object whose \<open>R\<close> is that array, and the mode they represent.
\<close>

definition store0 :: store where
  "store0 = [Float64 [0, 1], Float64 [5, 6]]"

definition obj0 :: DistributedCircuit_obj where
  "obj0 = \<lparr> frequency_w = Some 0, C_attr = Num (90 / 10 ^ 12), L_attr = Num (280 / 10 ^ 9),
            R_attr = Ref 1, G_attr = Num 0 \<rparr>"

definition mode0 :: DistributedCircuit where
  "mode0 = init (Some dc_grid) None None None None None (Some (Array [5, 6])) None"

section \<open>Properties\<close>

subsection \<open>Broadcasting and the derived impedances\<close>

lemma nudge_Im: "Im (nudge z) \<noteq> 0"
  by (simp add: nudge_def)

lemma broadcast_shaped:
  "shaped (length xs) q \<Longrightarrow>
   broadcast f xs q = Inr (map (\<lambda>k. f (xs ! k) (sample q k)) [0..<length xs])"
  by (cases q) (auto simp: shaped_def sample_def broadcast_arrays_def intro!: nth_equalityI)

lemma series_shaped:
  assumes "shaped (length ws) P" "shaped (length ws) Q"
  shows "series ws P Q =
    Inr (map (\<lambda>k. complex_of_real (sample P k)
                   + \<i> * complex_of_real (ws ! k) * complex_of_real (sample Q k))
             [0..<length ws])"
  using assms by (simp add: series_def broadcast_shaped)

lemma Z_nonzero_Im: "Z self = Inr zs \<Longrightarrow> z \<in> set zs \<Longrightarrow> Im z \<noteq> 0"
  by (auto simp: Z_def nudge_Im split: option.splits sum.splits)

lemma Y_nonzero_Im: "Y self = Inr ys \<Longrightarrow> y \<in> set ys \<Longrightarrow> Im y \<noteq> 0"
  by (auto simp: Y_def nudge_Im split: option.splits sum.splits)

lemma Z_shaped:
  assumes "frequency self = Some f"
    and "shaped (length (w f)) (R self)" "shaped (length (w f)) (L self)"
  shows "Z self =
    Inr (map (\<lambda>k. nudge (complex_of_real (sample (R self) k)
                   + \<i> * complex_of_real (w f ! k) * complex_of_real (sample (L self) k)))
             [0..<length (w f)])"
  using assms by (simp add: Z_def series_shaped comp_def)

lemma Y_shaped:
  assumes "frequency self = Some f"
    and "shaped (length (w f)) (G self)" "shaped (length (w f)) (C self)"
  shows "Y self =
    Inr (map (\<lambda>k. nudge (complex_of_real (sample (G self) k)
                   + \<i> * complex_of_real (w f ! k) * complex_of_real (sample (C self) k)))
             [0..<length (w f)])"
  using assms by (simp add: Y_def series_shaped comp_def)

lemma dc_line_simps:
  "frequency dc_line = Some dc_grid" "R dc_line = Scalar 0" "G dc_line = Scalar 0"
  "L dc_line = Scalar (280 / 10 ^ 9)" "C dc_line = Scalar (90 / 10 ^ 12)" "w dc_grid = [0, 1]"
  by (simp_all add: dc_line_def dc_grid_def init_def Media_init_def)

text \<open>
  C4 (degeneracy guard). Whatever the mode, an array that \<open>Z\<close> or \<open>Y\<close> returns has no
  sample with imaginary part zero. For a mode whose vector parameters have the length of the
  grid, sample \<open>k\<close> of \<open>Z\<close> is \<open>R[k] + j w[k] L[k]\<close>, plus the absolute constant
  \<open>j 1e-12\<close> exactly when the imaginary part of that sum is zero (so also at \<open>w[k] = 0\<close>); and
  the same for \<open>Y\<close> with \<open>G\<close> and \<open>C\<close>.
\<close>

theorem degeneracy_guard:
  "(Z self = Inr zs \<longrightarrow> (\<forall>z \<in> set zs. Im z \<noteq> 0)) \<and>
   (Y self = Inr ys \<longrightarrow> (\<forall>y \<in> set ys. Im y \<noteq> 0)) \<and>
   (frequency self = Some f \<and> shaped (length (w f)) (R self) \<and> shaped (length (w f)) (L self) \<longrightarrow>
      Z self = Inr (map (\<lambda>k. let raw = complex_of_real (sample (R self) k)
                                     + \<i> * complex_of_real (w f ! k) * complex_of_real (sample (L self) k)
                             in if Im raw = 0 then raw + \<i> * (1 / 10 ^ 12) else raw)
                        [0..<length (w f)])) \<and>
   (frequency self = Some f \<and> shaped (length (w f)) (G self) \<and> shaped (length (w f)) (C self) \<longrightarrow>
      Y self = Inr (map (\<lambda>k. let raw = complex_of_real (sample (G self) k)
                                     + \<i> * complex_of_real (w f ! k) * complex_of_real (sample (C self) k)
                             in if Im raw = 0 then raw + \<i> * (1 / 10 ^ 12) else raw)
                        [0..<length (w f)]))"
proof (intro conjI impI ballI)
  fix z assume "Z self = Inr zs" "z \<in> set zs"
  then show "Im z \<noteq> 0" by (rule Z_nonzero_Im)
next
  fix y assume "Y self = Inr ys" "y \<in> set ys"
  then show "Im y \<noteq> 0" by (rule Y_nonzero_Im)
next
  assume "frequency self = Some f \<and> shaped (length (w f)) (R self) \<and> shaped (length (w f)) (L self)"
  then show "Z self = Inr (map (\<lambda>k. let raw = complex_of_real (sample (R self) k)
                                     + \<i> * complex_of_real (w f ! k) * complex_of_real (sample (L self) k)
                             in if Im raw = 0 then raw + \<i> * (1 / 10 ^ 12) else raw)
                        [0..<length (w f)])"
    by (simp add: Z_shaped nudge_def Let_def)
next
  assume "frequency self = Some f \<and> shaped (length (w f)) (G self) \<and> shaped (length (w f)) (C self)"
  then show "Y self = Inr (map (\<lambda>k. let raw = complex_of_real (sample (G self) k)
                                     + \<i> * complex_of_real (w f ! k) * complex_of_real (sample (C self) k)
                             in if Im raw = 0 then raw + \<i> * (1 / 10 ^ 12) else raw)
                        [0..<length (w f)])"
    by (simp add: Y_shaped nudge_def Let_def)
qed

text \<open>
  The default line over the grid that starts at DC: the raw samples at \<open>w = 0\<close> are \<open>0\<close> and
  become \<open>j 1e-12\<close>; the samples at \<open>w = 1\<close> are left alone.
\<close>

theorem degeneracy_guard_witness:
  "Z dc_line = Inr [\<i> * (1 / 10 ^ 12), \<i> * (280 / 10 ^ 9)] \<and>
   Y dc_line = Inr [\<i> * (1 / 10 ^ 12), \<i> * (90 / 10 ^ 12)] \<and>
   Im (\<i> * (1 / 10 ^ 12)) \<noteq> 0 \<and> Im (\<i> * (280 / 10 ^ 9)) \<noteq> 0 \<and> Im (\<i> * (90 / 10 ^ 12)) \<noteq> 0"
proof -
  have zs: "Z dc_line = Inr [\<i> * (1 / 10 ^ 12), \<i> * (280 / 10 ^ 9)]"
    using degeneracy_guard [of dc_line "[]" "[]" dc_grid]
    by (simp add: dc_line_simps shaped_def sample_def upt_rec complex_eq_iff)
  have ys: "Y dc_line = Inr [\<i> * (1 / 10 ^ 12), \<i> * (90 / 10 ^ 12)]"
    using degeneracy_guard [of dc_line "[]" "[]" dc_grid]
    by (simp add: dc_line_simps shaped_def sample_def upt_rec complex_eq_iff)
  show ?thesis
    using zs ys
      degeneracy_guard [of dc_line "[\<i> * (1 / 10 ^ 12), \<i> * (280 / 10 ^ 9)]"
        "[\<i> * (1 / 10 ^ 12), \<i> * (90 / 10 ^ 12)]" dc_grid]
    by simp
qed

subsection \<open>Construction\<close>

text \<open>
  C8 (construction stores the parameters as given). An omitted parameter takes its default,
  \<open>C = 90e-12\<close>, \<open>L = 280e-9\<close>, \<open>R = 0\<close>, \<open>G = 0\<close>; a supplied parameter, scalar or
  vector of any length, is the stored one. The constructor has no failing outcome and does
  not look at the grid: shapes meet only in \<open>series\<close>, when \<open>Z\<close> or \<open>Y\<close> is derived.
\<close>

theorem init_stores_as_given:
  "C (init fr zp zo z None l r g) = Scalar (90 / 10 ^ 12) \<and>
   L (init fr zp zo z c None r g) = Scalar (280 / 10 ^ 9) \<and>
   R (init fr zp zo z c l None g) = Scalar 0 \<and>
   G (init fr zp zo z c l r None) = Scalar 0 \<and>
   C (init fr zp zo z (Some c') l r g) = c' \<and>
   L (init fr zp zo z c (Some l') r g) = l' \<and>
   R (init fr zp zo z c l (Some r') g) = r' \<and>
   G (init fr zp zo z c l r (Some g')) = g'"
  by (simp add: init_def Media_init_def)

subsection \<open>Inverse construction\<close>

lemma broadcast_arrays_same:
  "length xs = length ys \<Longrightarrow>
   broadcast_arrays f xs ys = Inr (map (\<lambda>k. f (xs ! k) (ys ! k)) [0..<length xs])"
  by (auto simp: broadcast_arrays_def intro!: nth_equalityI)

lemma divide_arrays_same:
  assumes "length xs = length ys" "\<forall>y \<in> set ys. y \<noteq> 0"
  shows "divide_arrays xs ys = Inr (map (\<lambda>k. xs ! k / ys ! k) [0..<length xs])"
proof -
  have "\<not> list_ex (\<lambda>p. snd p = 0) (map (\<lambda>k. (xs ! k, ys ! k)) [0..<length xs])"
    using assms by (auto simp: list_ex_iff)
  then show ?thesis
    using assms by (simp add: divide_arrays_def broadcast_arrays_same comp_def)
qed

lemma divide_arrays_zero:
  assumes "length xs = length ys" "0 \<in> set ys"
  shows "divide_arrays xs ys = Inl NonFinite"
proof -
  from assms obtain k where k: "k < length ys" "ys ! k = 0"
    by (auto simp: in_set_conv_nth)
  then have "list_ex (\<lambda>p. snd p = 0) (map (\<lambda>k. (xs ! k, ys ! k)) [0..<length xs])"
    using assms by (auto simp: list_ex_iff intro!: bexI[of _ k])
  then show ?thesis
    using assms by (simp add: divide_arrays_def broadcast_arrays_same)
qed

lemma from_media_vectors:
  assumes "length (Media.gamma my_media) = n" "length (Media.z0 my_media) = n"
    and "length (w (Media.frequency my_media)) = n"
    and "\<forall>z \<in> set (Media.z0 my_media). z \<noteq> 0"
    and "\<forall>x \<in> set (w (Media.frequency my_media)). x \<noteq> 0"
  shows "from_media my_media = Inr
    \<lparr> frequency = Some (Media.frequency my_media),
      z0_port = Media.z0_port my_media,
      z0_override = None,
      C = Array (map (\<lambda>k. Im (Media.gamma my_media ! k / Media.z0 my_media ! k)
                              / w (Media.frequency my_media) ! k) [0..<n]),
      L = Array (map (\<lambda>k. Im (Media.gamma my_media ! k * Media.z0 my_media ! k)
                              / w (Media.frequency my_media) ! k) [0..<n]),
      R = Array (map (\<lambda>k. Re (Media.gamma my_media ! k * Media.z0 my_media ! k)) [0..<n]),
      G = Array (map (\<lambda>k. Re (Media.gamma my_media ! k / Media.z0 my_media ! k)) [0..<n]) \<rparr>"
  using assms
  by (simp add: from_media_def Let_def divide_arrays_same broadcast_arrays_same
      init_def Media_init_def comp_def)

text \<open>
  C3 (inverse-construction formulas). For a media whose \<open>gamma\<close>, \<open>z0\<close> and grid are
  \<open>n\<close>-vectors without a zero divisor, \<open>from_media\<close> returns the mode with
  \<open>G = Re (gamma / z0)\<close>, \<open>C = Im (gamma / z0) / w\<close>, \<open>R = Re (gamma * z0)\<close> and
  \<open>L = Im (gamma * z0) / w\<close> sample by sample, all four arrays over the grid, with the
  grid and the port impedance of the source.
\<close>

theorem from_media_formulas:
  assumes "length (Media.gamma my_media) = n" "length (Media.z0 my_media) = n"
    and "length (w (Media.frequency my_media)) = n"
    and "\<forall>z \<in> set (Media.z0 my_media). z \<noteq> 0"
    and "\<forall>x \<in> set (w (Media.frequency my_media)). x \<noteq> 0"
  shows "from_media my_media = Inr
    \<lparr> frequency = Some (Media.frequency my_media),
      z0_port = Media.z0_port my_media,
      z0_override = None,
      C = Array (map (\<lambda>k. Im (Media.gamma my_media ! k / Media.z0 my_media ! k)
                              / w (Media.frequency my_media) ! k) [0..<n]),
      L = Array (map (\<lambda>k. Im (Media.gamma my_media ! k * Media.z0 my_media ! k)
                              / w (Media.frequency my_media) ! k) [0..<n]),
      R = Array (map (\<lambda>k. Re (Media.gamma my_media ! k * Media.z0 my_media ! k)) [0..<n]),
      G = Array (map (\<lambda>k. Re (Media.gamma my_media ! k / Media.z0 my_media ! k)) [0..<n]) \<rparr>"
  using assms by (rule from_media_vectors)

theorem from_media_formulas_witness:
  "from_media ex_media = Inr
    \<lparr> frequency = Some \<lparr> w = [1, 2], f_scaled = [1, 2], unit = ''Hz'', npoints = 2 \<rparr>,
      z0_port = Some (Scalar 50), z0_override = None,
      C = Array [1, 1 / 2], L = Array [1, 2], R = Array [1, 0], G = Array [1, 0] \<rparr>"
  using from_media_formulas [of ex_media 2]
  by (simp add: ex_media_def upt_rec)

text \<open>A grid with a DC sample: the division by \<open>w\<close> leaves the reals.\<close>

lemma from_media_DC:
  assumes "length (Media.gamma my_media) = n" "length (Media.z0 my_media) = n"
    and "length (w (Media.frequency my_media)) = n"
    and "\<forall>z \<in> set (Media.z0 my_media). z \<noteq> 0"
    and "0 \<in> set (w (Media.frequency my_media))"
  shows "from_media my_media = Inl NonFinite"
  using assms
  by (simp add: from_media_def Let_def divide_arrays_same divide_arrays_zero broadcast_arrays_same)

subsection \<open>Wave descriptors\<close>




lemma wave_sample:
  assumes "Z self = Inr zs" "Y self = Inr ys" "length zs = length ys"
  shows "gamma self = Inr (map (\<lambda>k. csqrt (zs ! k * ys ! k)) [0..<length zs])"
    and "z0_characteristic self = Inr (map (\<lambda>k. csqrt (zs ! k / ys ! k)) [0..<length zs])"
proof -
  show "gamma self = Inr (map (\<lambda>k. csqrt (zs ! k * ys ! k)) [0..<length zs])"
    using assms by (simp add: gamma_def broadcast_arrays_same comp_def)
  have "\<forall>y \<in> set ys. y \<noteq> 0"
    using Y_nonzero_Im [OF assms(2)] by force
  then show "z0_characteristic self = Inr (map (\<lambda>k. csqrt (zs ! k / ys ! k)) [0..<length zs])"
    using assms by (simp add: z0_characteristic_def divide_arrays_same comp_def)
qed



































subsection \<open>Diagnostic rendering\<close>

lemma format_2f_cases:
  "format_2f fmt p = Inl e \<Longrightarrow> e = Raise TypeError"
  by (cases p) (simp_all add: format_2f_def)

lemma render_vector:
  assumes "f_scaled f \<noteq> []"
    and "L self = Array xs \<or> C self = Array xs \<or> R self = Array xs \<or> G self = Array xs"
  shows "render show_float show_int fmt sfx f self = Inl (Raise TypeError)"
proof -
  have h: "header show_float show_int f \<noteq> Inl e" for e
    using assms(1) by (simp add: header_def)
  have a: "format_2f fmt (Array xs) = Inl (Raise TypeError)"
    by (simp add: format_2f_def)
  show ?thesis
    using assms(2) h a
    by (auto simp: render_def split: sum.splits dest: format_2f_cases)
qed

text \<open>
  C6 (rendering of vector parameters). With a grid that has samples, a mode with any
  vector-valued parameter is not rendered: the first evaluation raises TypeError at the
  vector, the handler evaluates the same \<open>.2f\<close> format on the same attribute, and its
  TypeError reaches the caller.
\<close>

theorem str_vector_raises:
  assumes "frequency self = Some f" "f_scaled f \<noteq> []"
    and "L self = Array xs \<or> C self = Array xs \<or> R self = Array xs \<or> G self = Array xs"
  shows "str show_float show_int fmt self = Inl (Raise TypeError)"
  using assms(1) render_vector [OF assms(2,3)]
  by (simp add: str_def)

theorem str_vector_raises_witness:
  "frequency vector_line = Some dc_grid \<and> f_scaled dc_grid \<noteq> [] \<and> L vector_line = Array [1, 2]
   \<and> (\<forall>show_float show_int fmt.
         str show_float show_int fmt vector_line = Inl (Raise TypeError))"
proof -
  have a: "frequency vector_line = Some dc_grid" "f_scaled dc_grid \<noteq> []"
    "L vector_line = Array [1, 2]"
    by (simp_all add: vector_line_def dc_grid_def init_def Media_init_def)
  show ?thesis
    using a str_vector_raises [of vector_line dc_grid "[1, 2]"]
    by simp
qed

text \<open>Whatever \<open>__str__\<close> returns is the scalar form: the form with \<open>..\<close> is never returned.\<close>

lemma str_returns_scalar:
  assumes "str show_float show_int fmt self = Inr s"
  shows "\<exists>f. frequency self = Some f \<and> render show_float show_int fmt [] f self = Inr s"
proof -
  from assms obtain f where f: "frequency self = Some f"
    by (auto simp: str_def split: option.splits)
  show ?thesis
  proof (cases "render show_float show_int fmt [] f self")
    case (Inr t)
    then show ?thesis using assms f by (simp add: str_def)
  next
    case (Inl e)
    have "render show_float show_int fmt ''..'' f self = Inl e \<or> e \<noteq> Raise TypeError"
      using Inl
      by (auto simp: render_def format_2f_def split: sum.splits nd.splits)
    then show ?thesis
      using assms f Inl
      by (auto simp: str_def split: failure.splits exn.splits)
  qed
qed


subsection \<open>Where errors surface\<close>

lemma broadcast_mismatch:
  assumes "length ys \<noteq> length xs" "length ys \<noteq> 1" "length xs \<noteq> 1"
  shows "broadcast f xs (Array ys) = Inl (Raise ValueError)"
  using assms by (simp add: broadcast_arrays_def)

lemma broadcast_Inl:
  "broadcast f xs q = Inl e \<Longrightarrow> e = Raise ValueError"
  by (cases q) (auto simp: broadcast_arrays_def split: if_splits)

lemma broadcast_length:
  "broadcast f xs q = Inr r \<Longrightarrow> length xs \<noteq> 1 \<Longrightarrow> length r = length xs"
  by (cases q) (auto simp: broadcast_arrays_def split: if_splits)

lemma series_mismatch:
  assumes "length ws \<noteq> 1"
    and "P = Array xs \<or> Q = Array xs"
    and "length xs \<noteq> length ws" "length xs \<noteq> 1"
  shows "series ws P Q = Inl (Raise ValueError)"
proof (cases "broadcast (\<lambda>z q. z * complex_of_real q) (map (\<lambda>x. \<i> * complex_of_real x) ws) Q")
  case (Inl e)
  then show ?thesis
    using broadcast_Inl [OF Inl] by (simp add: series_def)
next
  case (Inr jwq)
  have len: "length jwq = length ws"
    using broadcast_length [OF Inr] assms(1) by simp
  have "Q \<noteq> Array xs"
  proof
    assume q: "Q = Array xs"
    have "broadcast (\<lambda>z q. z * complex_of_real q) (map (\<lambda>x. \<i> * complex_of_real x) ws) Q
          = Inl (Raise ValueError)"
      unfolding q by (rule broadcast_mismatch) (use assms in simp_all)
    with Inr show False by simp
  qed
  then have "P = Array xs" using assms(2) by simp
  then show ?thesis
    using Inr len assms broadcast_mismatch [of xs jwq] by (simp add: series_def)
qed

lemma wave_no_grid:
  "frequency self = None \<Longrightarrow> Z self = Inl (Raise AttributeError)"
  "frequency self = None \<Longrightarrow> Y self = Inl (Raise AttributeError)"
  "frequency self = None \<Longrightarrow> z0_characteristic self = Inl (Raise AttributeError)"
  "frequency self = None \<Longrightarrow> gamma self = Inl (Raise AttributeError)"
  by (simp_all add: Z_def Y_def z0_characteristic_def gamma_def)

lemma Z_mismatch:
  assumes "frequency self = Some f" "length (w f) \<noteq> 1"
    and "R self = Array xs \<or> L self = Array xs"
    and "length xs \<noteq> length (w f)" "length xs \<noteq> 1"
  shows "Z self = Inl (Raise ValueError)"
  using assms(1) series_mismatch [OF assms(2-5)] by (simp add: Z_def)

lemma Y_mismatch:
  assumes "frequency self = Some f" "length (w f) \<noteq> 1"
    and "G self = Array xs \<or> C self = Array xs"
    and "length xs \<noteq> length (w f)" "length xs \<noteq> 1"
  shows "Y self = Inl (Raise ValueError)"
  using assms(1) series_mismatch [OF assms(2-5)] by (simp add: Y_def)

lemma broadcast_None:
  "broadcast_len (length xs) q = None \<Longrightarrow> broadcast f xs q = Inl (Raise ValueError)"
  by (cases q) (auto simp: broadcast_arrays_def split: if_splits)

lemma broadcast_Some:
  "broadcast_len (length xs) q = Some n \<Longrightarrow> \<exists>r. broadcast f xs q = Inr r \<and> length r = n"
  by (cases q) (auto simp: broadcast_arrays_def split: if_splits)

lemma series_outcome:
  "case series_len (length ws) P Q of
     None \<Rightarrow> series ws P Q = Inl (Raise ValueError)
   | Some n \<Rightarrow> \<exists>zs. series ws P Q = Inr zs \<and> length zs = n"
proof (cases "broadcast_len (length ws) Q")
  case None
  then show ?thesis
    using broadcast_None [of "map (\<lambda>x. \<i> * complex_of_real x) ws" Q
        "\<lambda>z q. z * complex_of_real q"]
    by (simp add: series_len_def series_def)
next
  case (Some k)
  then obtain jwq where j: "broadcast (\<lambda>z q. z * complex_of_real q)
        (map (\<lambda>x. \<i> * complex_of_real x) ws) Q = Inr jwq" "length jwq = k"
    using broadcast_Some [of "map (\<lambda>x. \<i> * complex_of_real x) ws" Q k] by auto
  show ?thesis
  proof (cases "broadcast_len k P")
    case None
    then show ?thesis
      using Some j broadcast_None [of jwq P] by (simp add: series_len_def series_def)
  next
    case (Some n)
    then show ?thesis
      using \<open>broadcast_len (length ws) Q = Some k\<close> j broadcast_Some [of jwq P n]
      by (simp add: series_len_def series_def)
  qed
qed

lemma Z_outcome:
  assumes "frequency self = Some f"
  shows "case series_len (length (w f)) (R self) (L self) of
     None \<Rightarrow> Z self = Inl (Raise ValueError)
   | Some n \<Rightarrow> \<exists>zs. Z self = Inr zs \<and> length zs = n"
  using assms series_outcome [of "w f" "R self" "L self"]
  by (auto simp: Z_def split: option.splits)

lemma Y_outcome:
  assumes "frequency self = Some f"
  shows "case series_len (length (w f)) (G self) (C self) of
     None \<Rightarrow> Y self = Inl (Raise ValueError)
   | Some n \<Rightarrow> \<exists>ys. Y self = Inr ys \<and> length ys = n"
  using assms series_outcome [of "w f" "G self" "C self"]
  by (auto simp: Y_def split: option.splits)

lemma broadcast_singleton: "broadcast f xs (Array [y]) = broadcast f xs (Scalar y)"
  by (cases xs rule: list.exhaust; cases "tl xs") (auto simp: broadcast_arrays_def)

lemma series_singleton:
  "series ws (Array [x]) Q = series ws (Scalar x) Q"
  "series ws P (Array [x]) = series ws P (Scalar x)"
  unfolding series_def broadcast_singleton by simp_all

lemma ZY_singleton:
  "R self = Array [x] \<Longrightarrow> Z self = Z (self \<lparr> R := Scalar x \<rparr>)"
  "L self = Array [x] \<Longrightarrow> Z self = Z (self \<lparr> L := Scalar x \<rparr>)"
  "G self = Array [x] \<Longrightarrow> Y self = Y (self \<lparr> G := Scalar x \<rparr>)"
  "C self = Array [x] \<Longrightarrow> Y self = Y (self \<lparr> C := Scalar x \<rparr>)"
  by (cases "frequency self"; simp add: Z_def Y_def series_singleton)+

lemma broadcast_arrays_outcome:
  "broadcast_arrays f xs ys =
     (if length xs = length ys \<or> length ys = 1 \<or> length xs = 1
      then broadcast_arrays f xs ys else Inl (Raise ValueError))"
  by (simp add: broadcast_arrays_def)

lemma broadcast_arrays_snd:
  "broadcast_arrays Pair xs ys = Inr ps \<Longrightarrow> p \<in> set ps \<Longrightarrow> snd p \<in> set ys"
proof -
  assume ps: "broadcast_arrays Pair xs ys = Inr ps" and p: "p \<in> set ps"
  obtain a b where ab: "p = (a, b)" by (cases p)
  show ?thesis
  proof (cases "length xs = length ys")
    case True
    then have "(a, b) \<in> set (zip xs ys)"
      using ps p ab by (auto simp: broadcast_arrays_def)
    then show ?thesis using ab by (auto dest: set_zip_rightD)
  next
    case False
    note neq = this
    show ?thesis
    proof (cases "length ys = 1")
      case True
      then have "ys \<noteq> []" by auto
      then have "hd ys \<in> set ys" by simp
      moreover have "b = hd ys"
        using ps p ab neq True by (auto simp: broadcast_arrays_def)
      ultimately show ?thesis using ab by simp
    next
      case False
      then show ?thesis
        using ps p ab neq by (auto simp: broadcast_arrays_def split: if_splits)
    qed
  qed
qed

lemma wave_outcome:
  assumes "Z self = Inr zs" "Y self = Inr ys"
  shows "if length zs = length ys \<or> length zs = 1 \<or> length ys = 1
         then (\<exists>gs. gamma self = Inr gs) \<and> (\<exists>z0s. z0_characteristic self = Inr z0s)
         else gamma self = Inl (Raise ValueError)
            \<and> z0_characteristic self = Inl (Raise ValueError)"
proof (cases "length zs = length ys \<or> length zs = 1 \<or> length ys = 1")
  case False
  then show ?thesis
    using assms by (simp add: gamma_def z0_characteristic_def divide_arrays_def broadcast_arrays_def)
next
  case True
  then have "\<exists>ps. broadcast_arrays Pair zs ys = Inr ps"
    by (auto simp: broadcast_arrays_def)
  then obtain ps where ps: "broadcast_arrays Pair zs ys = Inr ps" ..
  have "\<not> list_ex (\<lambda>p. snd p = 0) ps"
  proof
    assume "list_ex (\<lambda>p. snd p = 0) ps"
    then obtain p where p: "p \<in> set ps" "snd p = 0" by (auto simp: list_ex_iff)
    have "0 \<in> set ys" using broadcast_arrays_snd [OF ps p(1)] p(2) by simp
    then show False using Y_nonzero_Im [OF assms(2)] by force
  qed
  then have "\<exists>z0s. z0_characteristic self = Inr z0s"
    using assms ps by (simp add: z0_characteristic_def divide_arrays_def)
  moreover have "\<exists>gs. gamma self = Inr gs"
    using assms True by (auto simp: gamma_def broadcast_arrays_def)
  ultimately show ?thesis using True by simp
qed


lemma wave_error:
  "Z self = Inl e \<Longrightarrow> gamma self = Inl e \<and> z0_characteristic self = Inl e"
  "Z self = Inr zs \<Longrightarrow> Y self = Inl e \<Longrightarrow> gamma self = Inl e \<and> z0_characteristic self = Inl e"
  by (simp_all add: gamma_def z0_characteristic_def)

text \<open>
  C7 (errors surface at derivation), as amended. The constructor stores a vector of any
  length. Over a grid of \<open>N\<close> samples, reading \<open>Z\<close> raises ValueError exactly when numpy
  cannot broadcast \<open>N\<close> with the length of \<open>L\<close> and the result with the length of \<open>R\<close>
  (two lengths broadcast when they are equal or one of them is 1, a scalar with every
  length), and returns an array of the broadcast length otherwise; likewise \<open>Y\<close> with \<open>C\<close>
  and \<open>G\<close>. So a vector of length 1 reads like the scalar it holds, and for \<open>N \<noteq> 1\<close> a
  vector of a length that is neither \<open>N\<close> nor 1 raises at \<open>Z\<close> (\<open>R\<close>, \<open>L\<close>) or at \<open>Y\<close>
  (\<open>G\<close>, \<open>C\<close>). When \<open>Z\<close> and \<open>Y\<close> both return, \<open>gamma\<close> and \<open>z0_characteristic\<close> raise
  ValueError exactly when the two lengths differ and neither is 1 (which needs \<open>N = 1\<close>),
  and return otherwise; an error of \<open>Z\<close> or \<open>Y\<close> is the error of both. A mode whose grid
  is absent raises AttributeError at \<open>Z\<close>, \<open>Y\<close>, \<open>z0_characteristic\<close> and \<open>gamma\<close>.
\<close>

theorem shape_error_at_derivation:
  "(frequency self = Some f \<longrightarrow>
      (case series_len (length (w f)) (R self) (L self) of
         None \<Rightarrow> Z self = Inl (Raise ValueError)
       | Some n \<Rightarrow> \<exists>zs. Z self = Inr zs \<and> length zs = n) \<and>
      (case series_len (length (w f)) (G self) (C self) of
         None \<Rightarrow> Y self = Inl (Raise ValueError)
       | Some n \<Rightarrow> \<exists>ys. Y self = Inr ys \<and> length ys = n)) \<and>
   (Z self = Inr zs \<and> Y self = Inr ys \<longrightarrow>
      (if length zs = length ys \<or> length zs = 1 \<or> length ys = 1
       then (\<exists>gs. gamma self = Inr gs) \<and> (\<exists>z0s. z0_characteristic self = Inr z0s)
       else gamma self = Inl (Raise ValueError)
          \<and> z0_characteristic self = Inl (Raise ValueError))) \<and>
   (Z self = Inl e \<or> (Z self = Inr zs \<and> Y self = Inl e)
       \<longrightarrow> gamma self = Inl e \<and> z0_characteristic self = Inl e) \<and>
   (R self = Array [x] \<longrightarrow> Z self = Z (self \<lparr> R := Scalar x \<rparr>)) \<and>
   (L self = Array [x] \<longrightarrow> Z self = Z (self \<lparr> L := Scalar x \<rparr>)) \<and>
   (G self = Array [x] \<longrightarrow> Y self = Y (self \<lparr> G := Scalar x \<rparr>)) \<and>
   (C self = Array [x] \<longrightarrow> Y self = Y (self \<lparr> C := Scalar x \<rparr>)) \<and>
   (frequency self = Some f \<and> length (w f) \<noteq> 1
     \<and> (R self = Array xs \<or> L self = Array xs)
     \<and> length xs \<noteq> length (w f) \<and> length xs \<noteq> 1
       \<longrightarrow> Z self = Inl (Raise ValueError)) \<and>
   (frequency self = Some f \<and> length (w f) \<noteq> 1
     \<and> (G self = Array xs \<or> C self = Array xs)
     \<and> length xs \<noteq> length (w f) \<and> length xs \<noteq> 1
       \<longrightarrow> Y self = Inl (Raise ValueError)) \<and>
   (frequency self = None
       \<longrightarrow> Z self = Inl (Raise AttributeError) \<and> Y self = Inl (Raise AttributeError)
         \<and> z0_characteristic self = Inl (Raise AttributeError)
         \<and> gamma self = Inl (Raise AttributeError)) \<and>
   R (init fr zp zo z c l (Some (Array xs)) g) = Array xs \<and>
   L (init fr zp zo z c (Some (Array xs)) r g) = Array xs \<and>
   G (init fr zp zo z c l r (Some (Array xs))) = Array xs \<and>
   C (init fr zp zo z (Some (Array xs)) l r g) = Array xs"
proof (intro conjI impI)
  assume "frequency self = Some f"
  then show "case series_len (length (w f)) (R self) (L self) of
         None \<Rightarrow> Z self = Inl (Raise ValueError)
       | Some n \<Rightarrow> \<exists>zs. Z self = Inr zs \<and> length zs = n"
    by (rule Z_outcome)
next
  assume "frequency self = Some f"
  then show "case series_len (length (w f)) (G self) (C self) of
         None \<Rightarrow> Y self = Inl (Raise ValueError)
       | Some n \<Rightarrow> \<exists>ys. Y self = Inr ys \<and> length ys = n"
    by (rule Y_outcome)
next
  assume "Z self = Inr zs \<and> Y self = Inr ys"
  then show "if length zs = length ys \<or> length zs = 1 \<or> length ys = 1
       then (\<exists>gs. gamma self = Inr gs) \<and> (\<exists>z0s. z0_characteristic self = Inr z0s)
       else gamma self = Inl (Raise ValueError)
          \<and> z0_characteristic self = Inl (Raise ValueError)"
    using wave_outcome [of self zs ys] by blast
next
  assume "Z self = Inl e \<or> (Z self = Inr zs \<and> Y self = Inl e)"
  then show "gamma self = Inl e" "z0_characteristic self = Inl e"
    using wave_error(1) [of self e] wave_error(2) [of self zs e] by blast+
next
  assume "frequency self = Some f \<and> length (w f) \<noteq> 1
     \<and> (R self = Array xs \<or> L self = Array xs)
     \<and> length xs \<noteq> length (w f) \<and> length xs \<noteq> 1"
  then show "Z self = Inl (Raise ValueError)"
    using Z_mismatch [of self f xs] by blast
next
  assume "frequency self = Some f \<and> length (w f) \<noteq> 1
     \<and> (G self = Array xs \<or> C self = Array xs)
     \<and> length xs \<noteq> length (w f) \<and> length xs \<noteq> 1"
  then show "Y self = Inl (Raise ValueError)"
    using Y_mismatch [of self f xs] by blast
qed (simp_all add: wave_no_grid init_def Media_init_def ZY_singleton)

theorem shape_error_at_derivation_witness:
  "frequency odd_line = Some unit_grid \<and> length (w unit_grid) = 1
   \<and> R odd_line = Array [1, 2, 3] \<and> G odd_line = Array [1, 2, 3, 4]
   \<and> series_len (length (w unit_grid)) (R odd_line) (L odd_line) = Some 3
   \<and> series_len (length (w unit_grid)) (G odd_line) (C odd_line) = Some 4
   \<and> Z odd_line = Inr [1 + \<i> * (280 / 10 ^ 9), 2 + \<i> * (280 / 10 ^ 9), 3 + \<i> * (280 / 10 ^ 9)]
   \<and> Y odd_line = Inr [1 + \<i> * (90 / 10 ^ 12), 2 + \<i> * (90 / 10 ^ 12),
                        3 + \<i> * (90 / 10 ^ 12), 4 + \<i> * (90 / 10 ^ 12)]
   \<and> gamma odd_line = Inl (Raise ValueError)
   \<and> z0_characteristic odd_line = Inl (Raise ValueError)
   \<and> frequency long_vector_line = Some dc_grid \<and> length (w dc_grid) \<noteq> 1
   \<and> R long_vector_line = Array [1, 2, 3]
   \<and> length [1, 2, 3 :: real] \<noteq> length (w dc_grid) \<and> length [1, 2, 3 :: real] \<noteq> 1
   \<and> series_len (length (w dc_grid)) (R long_vector_line) (L long_vector_line) = None
   \<and> Z long_vector_line = Inl (Raise ValueError)
   \<and> gamma long_vector_line = Inl (Raise ValueError)
   \<and> R short_vector_line = Array [5]
   \<and> Z short_vector_line = Z (short_vector_line \<lparr> R := Scalar 5 \<rparr>)
   \<and> frequency (dc_line \<lparr> frequency := None \<rparr>) = None
   \<and> Z (dc_line \<lparr> frequency := None \<rparr>) = Inl (Raise AttributeError)
   \<and> gamma (dc_line \<lparr> frequency := None \<rparr>) = Inl (Raise AttributeError)"
proof -
  have a: "frequency long_vector_line = Some dc_grid" "length (w dc_grid) \<noteq> 1"
    "R long_vector_line = Array [1, 2, 3]"
    "series_len (length (w dc_grid)) (R long_vector_line) (L long_vector_line) = None"
    by (simp_all add: long_vector_line_def dc_grid_def init_def Media_init_def series_len_def)
  have b: "frequency odd_line = Some unit_grid" "length (w unit_grid) = 1"
    "R odd_line = Array [1, 2, 3]" "G odd_line = Array [1, 2, 3, 4]"
    "series_len (length (w unit_grid)) (R odd_line) (L odd_line) = Some 3"
    "series_len (length (w unit_grid)) (G odd_line) (C odd_line) = Some 4"
    by (simp_all add: odd_line_def unit_grid_def init_def Media_init_def series_len_def)
  have zy: "Z odd_line = Inr [1 + \<i> * (280 / 10 ^ 9), 2 + \<i> * (280 / 10 ^ 9), 3 + \<i> * (280 / 10 ^ 9)]"
    "Y odd_line = Inr [1 + \<i> * (90 / 10 ^ 12), 2 + \<i> * (90 / 10 ^ 12),
                        3 + \<i> * (90 / 10 ^ 12), 4 + \<i> * (90 / 10 ^ 12)]"
    by (simp_all add: odd_line_def unit_grid_def init_def Media_init_def Z_def Y_def series_def
        broadcast_arrays_def nudge_def complex_eq_iff)
  have c: "R short_vector_line = Array [5]"
    by (simp add: short_vector_line_def init_def Media_init_def)
  show ?thesis
    using a b zy c
      shape_error_at_derivation [where self = odd_line and f = unit_grid
        and zs = "[1 + \<i> * (280 / 10 ^ 9), 2 + \<i> * (280 / 10 ^ 9), 3 + \<i> * (280 / 10 ^ 9)]"
        and ys = "[1 + \<i> * (90 / 10 ^ 12), 2 + \<i> * (90 / 10 ^ 12),
          3 + \<i> * (90 / 10 ^ 12), 4 + \<i> * (90 / 10 ^ 12)]"]
      shape_error_at_derivation [where self = long_vector_line and f = dc_grid
        and e = "Raise ValueError" and xs = "[1, 2, 3]"]
      shape_error_at_derivation [where self = short_vector_line and x = 5]
      shape_error_at_derivation [where self = "dc_line \<lparr> frequency := None \<rparr>"]
    by (simp add: dc_grid_def)
qed

text \<open>
  A vector of length 1 over the grid of 2 samples mismatches the grid, and numpy broadcasts it
  like a scalar: no access raises.
\<close>

theorem shape_error_counterexample:
  "R short_vector_line = Array [5] \<and> frequency short_vector_line = Some dc_grid
   \<and> length [5 :: real] \<noteq> length (w dc_grid)
   \<and> Z short_vector_line = Inr [5 + \<i> * (1 / 10 ^ 12), 5 + \<i> * (280 / 10 ^ 9)]
   \<and> Y short_vector_line = Inr [\<i> * (1 / 10 ^ 12), \<i> * (90 / 10 ^ 12)]
   \<and> \<not> isl (gamma short_vector_line) \<and> \<not> isl (z0_characteristic short_vector_line)"
proof -
  have zy: "Z short_vector_line = Inr [5 + \<i> * (1 / 10 ^ 12), 5 + \<i> * (280 / 10 ^ 9)]"
    "Y short_vector_line = Inr [\<i> * (1 / 10 ^ 12), \<i> * (90 / 10 ^ 12)]"
    by (simp_all add: short_vector_line_def dc_grid_def init_def Media_init_def Z_def Y_def
        series_def broadcast_arrays_def nudge_def complex_eq_iff)
  have "\<not> isl (gamma short_vector_line)" "\<not> isl (z0_characteristic short_vector_line)"
    by (simp_all add: gamma_def z0_characteristic_def zy broadcast_arrays_def divide_arrays_def)
  then show ?thesis
    using zy by (simp add: short_vector_line_def dc_grid_def init_def Media_init_def)
qed

subsection \<open>Square roots in the first quadrant\<close>

lemma csqrt_first_quadrant:
  assumes "0 \<le> Re z" "0 < Im z"
  shows "0 < Re (csqrt z) \<and> 0 < Im (csqrt z) \<and> Im (csqrt z) \<le> Re (csqrt z)"
proof -
  define p where "p = csqrt z"
  have sq: "p * p = z"
    using power2_csqrt [of z] by (simp add: p_def power2_eq_square)
  have re: "Re p * Re p - Im p * Im p = Re z" and im: "2 * (Re p * Im p) = Im z"
    using sq by (auto simp: complex_eq_iff mult.commute)
  have p0: "0 \<le> Re p" unfolding p_def by (rule Re_csqrt)
  have pos: "0 < Re p * Im p" using im assms(2) by simp
  have rp: "0 < Re p"
    using p0 pos by (cases "Re p = 0") auto
  have ip: "0 < Im p"
    using rp pos by (simp add: zero_less_mult_iff)
  have le: "Im p * Im p \<le> Re p * Re p" using re assms(1) by simp
  have "Im p \<le> Re p"
  proof (rule ccontr)
    assume "\<not> Im p \<le> Re p"
    then have "Re p < Im p" by simp
    then have "Re p * Re p < Im p * Im p"
      using rp by (intro mult_strict_mono) auto
    with le show False by simp
  qed
  then show ?thesis using rp ip by (simp add: p_def)
qed


lemma csqrt_product_quotient:
  assumes "0 \<le> Re a" "0 < Im a" "0 \<le> Re b" "0 < Im b"
  shows "csqrt (a * b) * csqrt (a / b) = a" and "csqrt (a * b) / csqrt (a / b) = b"
    and "csqrt (a / b) \<noteq> 0"
proof -
  define p where "p = csqrt a"
  define q where "q = csqrt b"
  have pp: "p * p = a" and qq: "q * q = b"
    using power2_csqrt [of a] power2_csqrt [of b] by (simp_all add: p_def q_def power2_eq_square)
  have P: "0 < Re p" "0 < Im p" "Im p \<le> Re p"
    using csqrt_first_quadrant [OF assms(1,2)] by (simp_all add: p_def)
  have Q: "0 < Re q" "0 < Im q" "Im q \<le> Re q"
    using csqrt_first_quadrant [OF assms(3,4)] by (simp_all add: q_def)
  have q0: "q \<noteq> 0" using Q by auto
  have p0: "p \<noteq> 0" using P by auto
  have "Im p * Im q \<le> Re p * Re q"
    using P Q by (intro mult_mono) auto
  moreover have "0 < Re p * Im q + Im p * Re q"
    using P Q by (simp add: add_pos_pos)
  ultimately have "0 < Re (p * q) \<or> Re (p * q) = 0 \<and> 0 \<le> Im (p * q)"
    by auto
  moreover have "(p * q)\<^sup>2 = a * b"
    using pp qq by (simp add: power2_eq_square algebra_simps)
  ultimately have prod: "csqrt (a * b) = p * q"
    by (rule csqrt_unique [rotated])
  have "0 < Re p * Re q + Im p * Im q"
    using P Q by (simp add: add_pos_pos)
  then have "0 < Re (p / q)"
    using Q by (simp add: Re_divide zero_less_divide_iff add_pos_pos power2_eq_square)
  then have "0 < Re (p / q) \<or> Re (p / q) = 0 \<and> 0 \<le> Im (p / q)"
    by simp
  moreover have "(p / q)\<^sup>2 = a / b"
    using pp qq by (simp add: power2_eq_square)
  ultimately have quot: "csqrt (a / b) = p / q"
    by (rule csqrt_unique [rotated])
  show "csqrt (a * b) * csqrt (a / b) = a"
    using prod quot q0 pp by simp
  show "csqrt (a * b) / csqrt (a / b) = b"
    using prod quot q0 p0 qq by simp
  show "csqrt (a / b) \<noteq> 0"
    using quot p0 q0 by simp
qed


subsection \<open>Round trips\<close>











lemma scalar_line_ZY:
  assumes "P = Scalar p" "Q = Scalar q" "0 \<le> q"
    and "\<forall>x \<in> set ws. 0 < x"
  shows "map (\<lambda>k. nudge (complex_of_real (sample P k)
                 + \<i> * complex_of_real (ws ! k) * complex_of_real (sample Q k)))
             [0..<length ws]
         = map (\<lambda>k. Complex p (if q = 0 then 1 / 10 ^ 12 else ws ! k * q)) [0..<length ws]"
proof (rule map_cong [OF refl])
  fix k assume "k \<in> set [0..<length ws]"
  then have pos: "0 < ws ! k" using assms(4) by simp
  have b: "complex_of_real (sample P k)
                 + \<i> * complex_of_real (ws ! k) * complex_of_real (sample Q k)
                 = Complex p (ws ! k * q)"
    by (simp add: assms(1,2) sample_def complex_eq_iff)
  show "nudge (complex_of_real (sample P k)
                 + \<i> * complex_of_real (ws ! k) * complex_of_real (sample Q k))
                 = Complex p (if q = 0 then 1 / 10 ^ 12 else ws ! k * q)"
    unfolding b using pos by (simp add: nudge_def complex_eq_iff)
qed

lemma map_index: "map (\<lambda>k. F (xs ! k)) [0..<length xs] = map F xs"
  by (rule nth_equalityI) simp_all

text \<open>
  C1 (from parameters to wave descriptors and back), as amended. Let a mode have scalar
  \<open>R\<close>, \<open>L\<close>, \<open>G\<close>, \<open>C\<close>, none of them negative, over a grid whose samples are all
  positive. Then \<open>gamma\<close> and \<open>z0_characteristic\<close> return, and \<open>from_media\<close> of a media
  that carries them on the same grid returns a mode whose \<open>R\<close> and \<open>G\<close> are the constant
  vectors of the two scalars, and whose \<open>L\<close> (and \<open>C\<close>) is the constant vector of the
  scalar when that is positive, and \<open>1e-12 / w[k]\<close>, which the guard put there, when it
  is zero.
\<close>

theorem round_trip_from_parameters:
  assumes fr: "frequency M1 = Some f"
    and par: "R M1 = Scalar r" "L M1 = Scalar l" "G M1 = Scalar g" "C M1 = Scalar c"
    and phys: "0 \<le> r" "0 \<le> l" "0 \<le> g" "0 \<le> c"
    and grid: "\<forall>x \<in> set (w f). 0 < x"
  shows "\<exists>gs zs M2. gamma M1 = Inr gs \<and> z0_characteristic M1 = Inr zs
           \<and> from_media \<lparr> Media.frequency = f, gamma = gs, z0 = zs, z0_port = zp \<rparr> = Inr M2
           \<and> R M2 = Array (map (\<lambda>x. r) (w f))
           \<and> L M2 = Array (map (\<lambda>x. if l = 0 then 1 / 10 ^ 12 / x else l) (w f))
           \<and> G M2 = Array (map (\<lambda>x. g) (w f))
           \<and> C M2 = Array (map (\<lambda>x. if c = 0 then 1 / 10 ^ 12 / x else c) (w f))"
proof -
  let ?n = "length (w f)"
  let ?z = "\<lambda>k. Complex r (if l = 0 then 1 / 10 ^ 12 else w f ! k * l)"
  let ?y = "\<lambda>k. Complex g (if c = 0 then 1 / 10 ^ 12 else w f ! k * c)"
  let ?gs = "map (\<lambda>k. csqrt (?z k * ?y k)) [0..<?n]"
  let ?zs = "map (\<lambda>k. csqrt (?z k / ?y k)) [0..<?n]"
  let ?m = "\<lparr> Media.frequency = f, gamma = ?gs, z0 = ?zs, z0_port = zp \<rparr>"
  have sh: "shaped ?n (R M1)" "shaped ?n (L M1)" "shaped ?n (G M1)" "shaped ?n (C M1)"
    by (simp_all add: par shaped_def)
  have ZM: "Z M1 = Inr (map ?z [0..<?n])"
    unfolding Z_shaped [OF fr sh(1,2)]
    using scalar_line_ZY [OF par(1,2) phys(2) grid] by simp
  have YM: "Y M1 = Inr (map ?y [0..<?n])"
    unfolding Y_shaped [OF fr sh(3,4)]
    using scalar_line_ZY [OF par(3,4) phys(4) grid] by simp
  have gs: "gamma M1 = Inr ?gs"
    using wave_sample(1) [OF ZM YM] by (simp del: csqrt.simps)
  have zs: "z0_characteristic M1 = Inr ?zs"
    using wave_sample(2) [OF ZM YM] by (simp del: csqrt.simps)
  have pos: "0 < w f ! k" if "k < ?n" for k
    using grid that by simp
  have quad: "0 \<le> Re (?z k) \<and> 0 < Im (?z k) \<and> 0 \<le> Re (?y k) \<and> 0 < Im (?y k)"
    if "k < ?n" for k
    using pos [OF that] phys by (simp add: less_le)
  have prod: "csqrt (?z k * ?y k) * csqrt (?z k / ?y k) = ?z k"
    and quot: "csqrt (?z k * ?y k) / csqrt (?z k / ?y k) = ?y k"
    and nz: "csqrt (?z k / ?y k) \<noteq> 0" if "k < ?n" for k
    using csqrt_product_quotient [of "?z k" "?y k"] quad [OF that] by blast+
  have z0: "\<forall>z \<in> set (Media.z0 ?m). z \<noteq> 0"
    using nz by (auto simp del: csqrt.simps)
  have ws: "\<forall>x \<in> set (w (Media.frequency ?m)). x \<noteq> 0"
    using grid by auto
  define M2 where "M2 =
    \<lparr> frequency = Some f, z0_port = zp, z0_override = None,
      C = Array (map (\<lambda>k. Im (?gs ! k / ?zs ! k) / w f ! k) [0..<?n]),
      L = Array (map (\<lambda>k. Im (?gs ! k * ?zs ! k) / w f ! k) [0..<?n]),
      R = Array (map (\<lambda>k. Re (?gs ! k * ?zs ! k)) [0..<?n]),
      G = Array (map (\<lambda>k. Re (?gs ! k / ?zs ! k)) [0..<?n]) \<rparr>"
  have fm: "from_media ?m = Inr M2"
    unfolding M2_def
    using from_media_vectors [of ?m ?n, OF _ _ _ z0 ws] by (simp del: csqrt.simps)
  have nth: "?gs ! k = csqrt (?z k * ?y k)" "?zs ! k = csqrt (?z k / ?y k)" if "k < ?n" for k
    using that by (simp_all del: csqrt.simps)
  have pk: "?gs ! k * ?zs ! k = ?z k" and qk: "?gs ! k / ?zs ! k = ?y k" if "k < ?n" for k
    using prod [OF that] quot [OF that] by (simp_all only: nth [OF that])
  have Rk: "map (\<lambda>k. Re (?gs ! k * ?zs ! k)) [0..<?n] = map (\<lambda>x. r) (w f)"
  proof -
    have eq: "map (\<lambda>k. Re (?gs ! k * ?zs ! k)) [0..<?n] = map (\<lambda>k. r) [0..<?n]"
    proof (rule map_cong [OF refl])
      fix k assume "k \<in> set [0..<?n]"
      then have "k < ?n" by simp
      then show "Re (?gs ! k * ?zs ! k) = r" by (simp only: pk complex.sel)
    qed
    have "map (\<lambda>k. r) [0..<?n] = map (\<lambda>x. r) (w f)"
      by (simp add: map_replicate_const)
    with eq show ?thesis by (rule trans)
  qed
  have Lk: "map (\<lambda>k. Im (?gs ! k * ?zs ! k) / w f ! k) [0..<?n]
            = map (\<lambda>x. if l = 0 then 1 / 10 ^ 12 / x else l) (w f)"
  proof -
    have eq: "map (\<lambda>k. Im (?gs ! k * ?zs ! k) / w f ! k) [0..<?n]
          = map (\<lambda>k. if l = 0 then 1 / 10 ^ 12 / w f ! k else l) [0..<?n]"
    proof (rule map_cong [OF refl])
      fix k assume "k \<in> set [0..<?n]"
      then have k: "k < ?n" by simp
      have "Im (?gs ! k * ?zs ! k) = (if l = 0 then 1 / 10 ^ 12 else w f ! k * l)"
        by (simp only: pk [OF k] complex.sel)
      then show "Im (?gs ! k * ?zs ! k) / w f ! k
                 = (if l = 0 then 1 / 10 ^ 12 / w f ! k else l)"
        using pos [OF k] by simp
    qed
    from eq show ?thesis
      by (rule trans) (rule map_index [of "\<lambda>x. if l = 0 then 1 / 10 ^ 12 / x else l" "w f"])
  qed
  have Gk: "map (\<lambda>k. Re (?gs ! k / ?zs ! k)) [0..<?n] = map (\<lambda>x. g) (w f)"
  proof -
    have eq: "map (\<lambda>k. Re (?gs ! k / ?zs ! k)) [0..<?n] = map (\<lambda>k. g) [0..<?n]"
    proof (rule map_cong [OF refl])
      fix k assume "k \<in> set [0..<?n]"
      then have "k < ?n" by simp
      then show "Re (?gs ! k / ?zs ! k) = g" by (simp only: qk complex.sel)
    qed
    have "map (\<lambda>k. g) [0..<?n] = map (\<lambda>x. g) (w f)"
      by (simp add: map_replicate_const)
    with eq show ?thesis by (rule trans)
  qed
  have Ck: "map (\<lambda>k. Im (?gs ! k / ?zs ! k) / w f ! k) [0..<?n]
            = map (\<lambda>x. if c = 0 then 1 / 10 ^ 12 / x else c) (w f)"
  proof -
    have eq: "map (\<lambda>k. Im (?gs ! k / ?zs ! k) / w f ! k) [0..<?n]
          = map (\<lambda>k. if c = 0 then 1 / 10 ^ 12 / w f ! k else c) [0..<?n]"
    proof (rule map_cong [OF refl])
      fix k assume "k \<in> set [0..<?n]"
      then have k: "k < ?n" by simp
      have "Im (?gs ! k / ?zs ! k) = (if c = 0 then 1 / 10 ^ 12 else w f ! k * c)"
        by (simp only: qk [OF k] complex.sel)
      then show "Im (?gs ! k / ?zs ! k) / w f ! k
                 = (if c = 0 then 1 / 10 ^ 12 / w f ! k else c)"
        using pos [OF k] by simp
    qed
    from eq show ?thesis
      by (rule trans) (rule map_index [of "\<lambda>x. if c = 0 then 1 / 10 ^ 12 / x else c" "w f"])
  qed
  have "R M2 = Array (map (\<lambda>x. r) (w f))"
    "L M2 = Array (map (\<lambda>x. if l = 0 then 1 / 10 ^ 12 / x else l) (w f))"
    "G M2 = Array (map (\<lambda>x. g) (w f))"
    "C M2 = Array (map (\<lambda>x. if c = 0 then 1 / 10 ^ 12 / x else c) (w f))"
    unfolding M2_def by (simp_all only: DistributedCircuit.select_convs Rk Lk Gk Ck)
  then show ?thesis
    using gs zs fm by blast
qed

text \<open>
  The lossy line over \<open>w = [1, 2]\<close> comes back as it was; in the second line \<open>L = 0\<close>
  comes back as \<open>1e-12 / w\<close>.
\<close>

theorem round_trip_from_parameters_witness:
  "(\<exists>gs zs M2. gamma lossy_line = Inr gs \<and> z0_characteristic lossy_line = Inr zs
       \<and> from_media \<lparr> Media.frequency = two_grid, gamma = gs, z0 = zs, z0_port = None \<rparr> = Inr M2
       \<and> R M2 = Array [1 / 2, 1 / 2] \<and> L M2 = Array [3, 3]
       \<and> G M2 = Array [1 / 4, 1 / 4] \<and> C M2 = Array [2, 2])
   \<and> (\<exists>gs zs M2. gamma (lossy_line \<lparr> L := Scalar 0 \<rparr>) = Inr gs
       \<and> z0_characteristic (lossy_line \<lparr> L := Scalar 0 \<rparr>) = Inr zs
       \<and> from_media \<lparr> Media.frequency = two_grid, gamma = gs, z0 = zs, z0_port = None \<rparr> = Inr M2
       \<and> R M2 = Array [1 / 2, 1 / 2] \<and> L M2 = Array [1 / 10 ^ 12, 1 / 10 ^ 12 / 2]
       \<and> G M2 = Array [1 / 4, 1 / 4] \<and> C M2 = Array [2, 2])"
proof -
  have a: "frequency lossy_line = Some two_grid" "R lossy_line = Scalar (1 / 2)"
    "L lossy_line = Scalar 3" "G lossy_line = Scalar (1 / 4)" "C lossy_line = Scalar 2"
    by (simp_all add: lossy_line_def init_def Media_init_def)
  have a0: "frequency (lossy_line \<lparr> L := Scalar 0 \<rparr>) = Some two_grid"
    "R (lossy_line \<lparr> L := Scalar 0 \<rparr>) = Scalar (1 / 2)"
    "L (lossy_line \<lparr> L := Scalar 0 \<rparr>) = Scalar 0"
    "G (lossy_line \<lparr> L := Scalar 0 \<rparr>) = Scalar (1 / 4)"
    "C (lossy_line \<lparr> L := Scalar 0 \<rparr>) = Scalar 2"
    by (simp_all add: a)
  have b: "\<forall>x \<in> set (w two_grid). 0 < x" "w two_grid = [1, 2]"
    by (simp_all add: two_grid_def)
  show ?thesis
    using round_trip_from_parameters [OF a _ _ _ _ b(1), of None]
      round_trip_from_parameters [OF a0 _ _ _ _ b(1), of None]
    by (simp add: b(2))
qed

text \<open>
  With \<open>R = -8\<close>, \<open>L = 6\<close>, \<open>G = 3\<close>, \<open>C = 4\<close> at \<open>w = 1\<close>: \<open>Z = -8 + 6j\<close>,
  \<open>Y = 3 + 4j\<close>, the principal square roots are \<open>gamma = 1 - 7j\<close> and \<open>z0 = 1 + j\<close>, and
  the rebuilt mode has \<open>R = 8\<close>, \<open>L = -6\<close>, \<open>G = -3\<close>, \<open>C = -4\<close>.
\<close>

theorem round_trip_from_parameters_counterexample:
  "R gain_line = Scalar (- 8) \<and> L gain_line = Scalar 6 \<and> G gain_line = Scalar 3
   \<and> C gain_line = Scalar 4 \<and> frequency gain_line = Some unit_grid
   \<and> gamma gain_line = Inr [1 - 7 * \<i>] \<and> z0_characteristic gain_line = Inr [1 + \<i>]
   \<and> from_media \<lparr> Media.frequency = unit_grid, gamma = [1 - 7 * \<i>], z0 = [1 + \<i>],
                   z0_port = None \<rparr>
       = Inr \<lparr> frequency = Some unit_grid, z0_port = None, z0_override = None,
               C = Array [- 4], L = Array [- 6], R = Array [8], G = Array [- 3] \<rparr>"
proof -
  have a: "R gain_line = Scalar (- 8)" "L gain_line = Scalar 6" "G gain_line = Scalar 3"
    "C gain_line = Scalar 4" "frequency gain_line = Some unit_grid"
    by (simp_all add: gain_line_def init_def Media_init_def)
  have z: "Z gain_line = Inr [- 8 + 6 * \<i>]" "Y gain_line = Inr [3 + 4 * \<i>]"
    by (simp_all add: Z_def Y_def series_def a unit_grid_def nudge_def complex_eq_iff)
  have "csqrt ((- 8 + 6 * \<i>) * (3 + 4 * \<i>)) = 1 - 7 * \<i>"
    by (rule csqrt_unique) (simp_all add: power2_eq_square algebra_simps)
  then have g: "gamma gain_line = Inr [1 - 7 * \<i>]"
    using wave_sample(1) [OF z] by (simp del: csqrt.simps)
  have "csqrt ((- 8 + 6 * \<i>) / (3 + 4 * \<i>)) = 1 + \<i>"
    by (rule csqrt_unique) (simp_all add: power2_eq_square complex_eq_iff Re_divide Im_divide)
  then have z0: "z0_characteristic gain_line = Inr [1 + \<i>]"
    using wave_sample(2) [OF z] by (simp del: csqrt.simps)
  have fm: "from_media \<lparr> Media.frequency = unit_grid, gamma = [1 - 7 * \<i>], z0 = [1 + \<i>],
                   z0_port = None \<rparr>
       = Inr \<lparr> frequency = Some unit_grid, z0_port = None, z0_override = None,
               C = Array [- 4], L = Array [- 6], R = Array [8], G = Array [- 3] \<rparr>"
    by (simp add: from_media_def unit_grid_def divide_arrays_def broadcast_arrays_def
        init_def Media_init_def Let_def Re_divide Im_divide power2_eq_square complex_eq_iff)
  show ?thesis using a g z0 fm by simp
qed

subsection \<open>Properties on the store\<close>

lemma preserves_iff: "preserves h h' \<longleftrightarrow> (\<exists>t. h' = h @ t)"
proof
  assume "preserves h h'"
  then have "take (length h) h' = h" by (simp add: preserves_def)
  then have "h' = h @ drop (length h) h'"
    using append_take_drop_id [of "length h" h'] by simp
  then show "\<exists>t. h' = h @ t" ..
next
  assume "\<exists>t. h' = h @ t"
  then show "preserves h h'" by (auto simp: preserves_def)
qed

lemma preserves_refl: "preserves h h"
  by (simp add: preserves_def)

lemma preserves_append: "preserves h (h @ vs)"
  by (simp add: preserves_def)

lemma preserves_trans: "preserves h h1 \<Longrightarrow> preserves h1 h2 \<Longrightarrow> preserves h h2"
  unfolding preserves_iff by auto

lemma preserves_nth: "preserves h h' \<Longrightarrow> a < length h \<Longrightarrow> h' ! a = h ! a"
  unfolding preserves_iff by (auto simp: nth_append)

lemma preserves_update: "length h \<le> a \<Longrightarrow> preserves h h' \<Longrightarrow> preserves h (h'[a := v])"
  unfolding preserves_iff by (auto simp: list_update_append)


lemma preserves_float64:
  assumes "preserves h h'" "fetch_float64 h a = Some xs"
  shows "fetch_float64 h' a = Some xs"
proof -
  from assms(1) obtain t where t: "h' = h @ t" unfolding preserves_iff ..
  have a: "a < length h"
    using assms(2) by (simp add: fetch_float64_def split: if_splits)
  then have "h' ! a = h ! a" "a < length h'"
    by (simp_all add: t nth_append)
  then show ?thesis
    using assms(2) a by (simp add: fetch_float64_def)
qed

lemma preserves_complex128:
  assumes "preserves h h'" "fetch_complex128 h a = Some zs"
  shows "fetch_complex128 h' a = Some zs"
proof -
  from assms(1) obtain t where t: "h' = h @ t" unfolding preserves_iff ..
  have a: "a < length h"
    using assms(2) by (simp add: fetch_complex128_def split: if_splits)
  then have "h' ! a = h ! a" "a < length h'"
    by (simp_all add: t nth_append)
  then show ?thesis
    using assms(2) a by (simp add: fetch_complex128_def)
qed

lemma preserves_param:
  assumes "preserves h h'" "fetch_param h v = Some p"
  shows "fetch_param h' v = Some p"
proof (cases v)
  case (Num x)
  then show ?thesis using assms(2) by (simp add: fetch_param_def)
next
  case (Ref a)
  then obtain xs where xs: "fetch_float64 h a = Some xs" "p = Array xs"
    using assms(2) by (auto simp: fetch_param_def)
  show ?thesis
    using preserves_float64 [OF assms(1) xs(1)] xs(2) Ref by (simp add: fetch_param_def)
qed

lemma preserves_represents:
  assumes "preserves h h'" "represents h obj m"
  shows "represents h' obj m"
proof -
  have a: "fetch_param h' (C_attr obj) = Some (C m)" "fetch_param h' (L_attr obj) = Some (L m)"
    "fetch_param h' (R_attr obj) = Some (R m)" "fetch_param h' (G_attr obj) = Some (G m)"
    using assms(2) by (auto simp: represents_def intro: preserves_param [OF assms(1)])
  show ?thesis
  proof (cases "frequency_w obj")
    case None
    then show ?thesis using assms(2) a by (simp add: represents_def)
  next
    case (Some wa)
    then obtain f where f: "frequency m = Some f" "fetch_float64 h wa = Some (w f)"
      using assms(2) by (auto simp: represents_def split: option.splits)
    show ?thesis
      using Some f(1) preserves_float64 [OF assms(1) f(2)] a by (simp add: represents_def)
  qed
qed

lemma fetch_alloc:
  "fetch_complex128 (h @ [Complex128 zs]) (length h) = Some zs"
  by (simp add: fetch_complex128_def)


lemma series_store_spec:
  assumes w: "fetch_float64 h wa = Some ws"
    and p: "fetch_param h P = Some p" and q: "fetch_param h Q = Some q"
  shows "\<exists>h'. preserves h h' \<and>
           (case series ws p q of
              Inl e \<Rightarrow> series_store h wa P Q = (Inl e, h')
            | Inr s \<Rightarrow> (\<exists>a. series_store h wa P Q = (Inr a, h') \<and> length h \<le> a
                           \<and> fetch_complex128 h' a = Some s))"
proof -
  let ?jw = "map (\<lambda>x. \<i> * complex_of_real x) ws"
  let ?h1 = "h @ [Complex128 ?jw]"
  have h1: "preserves h ?h1" by (rule preserves_append)
  have f1: "fetch_complex128 ?h1 (length h) = Some ?jw" by (rule fetch_alloc)
  have q1: "fetch_param ?h1 Q = Some q" by (rule preserves_param [OF h1 q])
  show ?thesis
  proof (cases "broadcast (\<lambda>z q. z * complex_of_real q) ?jw q")
    case (Inl e)
    then have "series_store h wa P Q = (Inl e, ?h1)" "series ws p q = Inl e"
      by (simp_all add: series_store_def series_def alloc_def w f1 q1)
    then show ?thesis using h1 by auto
  next
    case (Inr jwq)
    let ?h2 = "?h1 @ [Complex128 jwq]"
    have h2: "preserves h ?h2"
      by (rule preserves_trans [OF h1 preserves_append])
    have f2: "fetch_complex128 ?h2 (length ?h1) = Some jwq" by (rule fetch_alloc)
    have p2: "fetch_param ?h2 P = Some p" by (rule preserves_param [OF h2 p])
    show ?thesis
    proof (cases "broadcast (\<lambda>z p. complex_of_real p + z) jwq p")
      case (Inl e)
      then have "series_store h wa P Q = (Inl e, ?h2)" "series ws p q = Inl e"
        using Inr f2 p2
        by (simp_all add: series_store_def series_def alloc_def w f1 q1)
      then show ?thesis using h2 by auto
    next
      case (Inr s)
      let ?h3 = "?h2 @ [Complex128 s]"
      have h3: "preserves h ?h3"
        by (rule preserves_trans [OF h2 preserves_append])
      have f3: "fetch_complex128 ?h3 (length ?h2) = Some s" by (rule fetch_alloc)
      have "series_store h wa P Q = (Inr (length ?h2), ?h3)" "series ws p q = Inr s"
        using Inr \<open>broadcast (\<lambda>z q. z * complex_of_real q) ?jw q = Inr jwq\<close> f2 p2
        by (simp_all add: series_store_def series_def alloc_def w f1 q1)
      then show ?thesis using h3 f3 by auto
    qed
  qed
qed



lemma reads_returned: "reads h rh v \<Longrightarrow> returned rh = v"
  by (auto simp: reads_def returned_def split: sum.splits option.splits)

lemma nudge_inplace_fetch:
  assumes "fetch_complex128 h a = Some zs"
  shows "fetch_complex128 (nudge_inplace h a) a = Some (map nudge zs)"
proof -
  have a: "a < length h"
    using assms by (simp add: fetch_complex128_def split: if_splits)
  then have "h ! a = Complex128 zs"
    using assms by (simp add: fetch_complex128_def split: ndarray.splits)
  then show ?thesis
    using a by (simp add: nudge_inplace_def fetch_complex128_def)
qed

lemma nudge_inplace_preserves:
  assumes "length h0 \<le> a" "preserves h0 h"
  shows "preserves h0 (nudge_inplace h a)"
proof (cases "h ! a")
  case (Float64 xs)
  then show ?thesis using assms(2) by (simp add: nudge_inplace_def)
next
  case (Complex128 zs)
  then show ?thesis
    using preserves_update [OF assms] by (simp add: nudge_inplace_def)
qed

lemma property_reads:
  assumes w: "fetch_float64 h wa = Some ws"
    and p: "fetch_param h P = Some p" and q: "fetch_param h Q = Some q"
  shows "reads h (case series_store h wa P Q of
                    (Inl e, h1) \<Rightarrow> (Inl e, h1)
                  | (Inr a, h1) \<Rightarrow> (Inr a, nudge_inplace h1 a))
           (case series ws p q of Inl e \<Rightarrow> Inl e | Inr s \<Rightarrow> Inr (map nudge s))"
proof -
  from series_store_spec [OF w p q] obtain h' where h': "preserves h h'"
    and c: "case series ws p q of
              Inl e \<Rightarrow> series_store h wa P Q = (Inl e, h')
            | Inr s \<Rightarrow> (\<exists>a. series_store h wa P Q = (Inr a, h')
                           \<and> length h \<le> a \<and> fetch_complex128 h' a = Some s)"
    by blast
  show ?thesis
  proof (cases "series ws p q")
    case (Inl e)
    then have "series_store h wa P Q = (Inl e, h')" using c by simp
    then show ?thesis
      using Inl h' by (simp add: reads_def)
  next
    case (Inr s)
    then obtain a where a: "series_store h wa P Q = (Inr a, h')"
      "length h \<le> a" "fetch_complex128 h' a = Some s"
      using c by auto
    show ?thesis
      using a(1,2) Inr nudge_inplace_fetch [OF a(3)] nudge_inplace_preserves [OF a(2) h']
      by (simp add: reads_def)
  qed
qed

lemma Z_prop_reads:
  assumes "represents h obj m"
  shows "reads h (Z_prop obj h) (Z m)"
proof (cases "frequency_w obj")
  case None
  then have "frequency m = None"
    using assms by (auto simp: represents_def split: option.splits)
  then show ?thesis
    using None by (simp add: reads_def Z_prop_def Z_def preserves_refl)
next
  case (Some wa)
  then obtain f where f: "frequency m = Some f" "fetch_float64 h wa = Some (w f)"
    using assms by (auto simp: represents_def split: option.splits)
  have pq: "fetch_param h (R_attr obj) = Some (R m)" "fetch_param h (L_attr obj) = Some (L m)"
    using assms by (simp_all add: represents_def)
  show ?thesis
    using property_reads [OF f(2) pq] Some f(1) by (simp add: Z_prop_def Z_def)
qed

lemma Y_prop_reads:
  assumes "represents h obj m"
  shows "reads h (Y_prop obj h) (Y m)"
proof (cases "frequency_w obj")
  case None
  then have "frequency m = None"
    using assms by (auto simp: represents_def split: option.splits)
  then show ?thesis
    using None by (simp add: reads_def Y_prop_def Y_def preserves_refl)
next
  case (Some wa)
  then obtain f where f: "frequency m = Some f" "fetch_float64 h wa = Some (w f)"
    using assms by (auto simp: represents_def split: option.splits)
  have pq: "fetch_param h (G_attr obj) = Some (G m)" "fetch_param h (C_attr obj) = Some (C m)"
    using assms by (simp_all add: represents_def)
  show ?thesis
    using property_reads [OF f(2) pq] Some f(1) by (simp add: Y_prop_def Y_def)
qed


lemma reads_cases:
  assumes "reads h rh v"
  obtains (raised) e h' where "rh = (Inl e, h')" "v = Inl e" "preserves h h'"
  | (returned) a h' zs where "rh = (Inr a, h')" "v = Inr zs" "preserves h h'"
      "length h \<le> a" "fetch_complex128 h' a = Some zs"
proof (cases "fst rh")
  case (Inl e)
  then have "rh = (Inl e, snd rh)" by (metis prod.collapse)
  then show ?thesis using assms Inl raised by (simp add: reads_def)
next
  case (Inr a)
  then have rh: "rh = (Inr a, snd rh)" by (metis prod.collapse)
  obtain zs where "fetch_complex128 (snd rh) a = Some zs" "v = Inr zs"
    using assms Inr by (auto simp: reads_def split: option.splits)
  then show ?thesis using assms Inr rh returned by (simp add: reads_def)
qed

lemma wave_prop_reads:
  assumes "represents h obj m"
  shows "reads h (wave_prop combine obj h)
           (case Z m of
              Inl e \<Rightarrow> Inl e
            | Inr zs \<Rightarrow>
                (case Y m of
                   Inl e \<Rightarrow> Inl e
                 | Inr ys \<Rightarrow>
                     (case combine zs ys of Inl e \<Rightarrow> Inl e | Inr q \<Rightarrow> Inr (map csqrt q))))"
  using Z_prop_reads [OF assms]
proof (cases rule: reads_cases)
  case (raised e h1)
  then show ?thesis by (simp add: wave_prop_def reads_def)
next
  case Zr: (returned za h1 zs)
  have r1: "represents h1 obj m"
    by (rule preserves_represents [OF Zr(3) assms])
  show ?thesis
    using Y_prop_reads [OF r1]
  proof (cases rule: reads_cases)
    case (raised e h2)
    then show ?thesis
      using Zr preserves_trans [OF Zr(3) raised(3)] by (simp add: wave_prop_def reads_def)
  next
    case Yr: (returned ya h2 ys)
    have h2: "preserves h h2" by (rule preserves_trans [OF Zr(3) Yr(3)])
    have fz: "fetch_complex128 h2 za = Some zs"
      by (rule preserves_complex128 [OF Yr(3) Zr(5)])
    show ?thesis
    proof (cases "combine zs ys")
      case (Inl e)
      then show ?thesis
        using Zr(1,2) Yr(1,2,5) fz h2 by (simp add: wave_prop_def reads_def)
    next
      case (Inr q)
      let ?h3 = "h2 @ [Complex128 q]"
      let ?h4 = "?h3 @ [Complex128 (map csqrt q)]"
      have h4: "preserves h ?h4"
        by (rule preserves_trans [OF preserves_trans [OF h2 preserves_append] preserves_append])
      have f4: "fetch_complex128 ?h4 (length ?h3) = Some (map csqrt q)"
        by (rule fetch_alloc)
      have len: "length h \<le> length ?h3"
        using h2 by (simp add: preserves_def)
      have "wave_prop combine obj h = (Inr (length ?h3), ?h4)"
        using Zr(1) Yr(1,5) fz Inr by (simp add: wave_prop_def alloc_def)
      then show ?thesis
        using Zr(2) Yr(2) Inr h4 f4 len by (simp add: reads_def del: csqrt.simps)
    qed
  qed
qed

lemma gamma_prop_reads: "represents h obj m \<Longrightarrow> reads h (gamma_prop obj h) (gamma m)"
  using wave_prop_reads [of h obj m "broadcast_arrays (*)"]
  by (simp add: gamma_prop_def gamma_def)

lemma z0_characteristic_prop_reads:
  "represents h obj m \<Longrightarrow> reads h (z0_characteristic_prop obj h) (z0_characteristic m)"
  using wave_prop_reads [of h obj m divide_arrays]
  by (simp add: z0_characteristic_prop_def z0_characteristic_def)

lemma represents_all:
  assumes "represents h obj m"
  shows "reads_all h obj m"
  unfolding reads_all_def
  using reads_returned [OF Z_prop_reads [OF assms]] reads_returned [OF Y_prop_reads [OF assms]]
    reads_returned [OF z0_characteristic_prop_reads [OF assms]]
    reads_returned [OF gamma_prop_reads [OF assms]]
  by simp

lemma reads_preserves: "reads h rh v \<Longrightarrow> preserves h (snd rh)"
  by (simp add: reads_def)

lemma reads_fresh: "reads h rh v \<Longrightarrow> (case fst rh of Inl e \<Rightarrow> True | Inr a \<Rightarrow> length h \<le> a)"
  by (auto simp: reads_def split: sum.splits)

lemma represents0: "represents store0 obj0 mode0"
  by (simp add: represents_def store0_def obj0_def mode0_def dc_grid_def init_def Media_init_def
      fetch_param_def fetch_float64_def)

lemma Z_mode0: "Z mode0 = Inr [5 + \<i> * (1 / 10 ^ 12), 6 + \<i> * (280 / 10 ^ 9)]"
  by (simp add: Z_def series_def mode0_def dc_grid_def init_def Media_init_def
      broadcast_arrays_def nudge_def complex_eq_iff)

text \<open>
  C10 (reading leaves the state unchanged). The properties have no assignment to an attribute
  of the mode, and the store they leave keeps every array that was there, the grid and the
  parameter arrays among them: the guard writes to the array the sum has just allocated. So
  the object still represents the same mode, and a second read of \<open>Z\<close> or \<open>Y\<close> returns the
  same samples as the first, with the nudge applied once.
\<close>

theorem reading_leaves_state:
  assumes "represents h obj m"
  shows "preserves h (snd (Z_prop obj h)) \<and> preserves h (snd (Y_prop obj h))
       \<and> preserves h (snd (z0_characteristic_prop obj h)) \<and> preserves h (snd (gamma_prop obj h))
       \<and> represents (snd (Z_prop obj h)) obj m \<and> represents (snd (Y_prop obj h)) obj m
       \<and> represents (snd (z0_characteristic_prop obj h)) obj m
       \<and> represents (snd (gamma_prop obj h)) obj m
       \<and> (case fst (Z_prop obj h) of Inl e \<Rightarrow> True | Inr a \<Rightarrow> length h \<le> a)
       \<and> (case fst (Y_prop obj h) of Inl e \<Rightarrow> True | Inr a \<Rightarrow> length h \<le> a)
       \<and> returned (Z_prop obj h) = Z m
       \<and> returned (Z_prop obj (snd (Z_prop obj h))) = Z m
       \<and> returned (Y_prop obj h) = Y m
       \<and> returned (Y_prop obj (snd (Y_prop obj h))) = Y m"
proof -
  note rz = Z_prop_reads [OF assms] and ry = Y_prop_reads [OF assms]
    and r0 = z0_characteristic_prop_reads [OF assms] and rg = gamma_prop_reads [OF assms]
  have pz: "preserves h (snd (Z_prop obj h))" by (rule reads_preserves [OF rz])
  have py: "preserves h (snd (Y_prop obj h))" by (rule reads_preserves [OF ry])
  have p0: "preserves h (snd (z0_characteristic_prop obj h))" by (rule reads_preserves [OF r0])
  have pg: "preserves h (snd (gamma_prop obj h))" by (rule reads_preserves [OF rg])
  have sz: "represents (snd (Z_prop obj h)) obj m" by (rule preserves_represents [OF pz assms])
  have sy: "represents (snd (Y_prop obj h)) obj m" by (rule preserves_represents [OF py assms])
  have s0: "represents (snd (z0_characteristic_prop obj h)) obj m"
    by (rule preserves_represents [OF p0 assms])
  have sg: "represents (snd (gamma_prop obj h)) obj m"
    by (rule preserves_represents [OF pg assms])
  show ?thesis
    using pz py p0 pg sz sy s0 sg reads_fresh [OF rz] reads_fresh [OF ry]
      reads_returned [OF rz] reads_returned [OF ry]
      reads_returned [OF Z_prop_reads [OF sz]] reads_returned [OF Y_prop_reads [OF sy]]
    by simp
qed

theorem reading_leaves_state_witness:
  "represents store0 obj0 mode0
   \<and> preserves store0 (snd (Z_prop obj0 store0))
   \<and> represents (snd (Z_prop obj0 store0)) obj0 mode0
   \<and> returned (Z_prop obj0 store0) = Inr [5 + \<i> * (1 / 10 ^ 12), 6 + \<i> * (280 / 10 ^ 9)]
   \<and> returned (Z_prop obj0 (snd (Z_prop obj0 store0)))
        = Inr [5 + \<i> * (1 / 10 ^ 12), 6 + \<i> * (280 / 10 ^ 9)]"
  using reading_leaves_state [OF represents0] represents0 Z_mode0
  by simp

text \<open>
  C9 (no caching). After any earlier read, assigning to \<open>R\<close>, \<open>L\<close>, \<open>G\<close> or \<open>C\<close> a
  number or an array of the store makes every read of \<open>Z\<close>, \<open>Y\<close>, \<open>z0_characteristic\<close> and
  \<open>gamma\<close> the value computed from the parameters now stored; without an assignment the
  reads are those computed from the unchanged parameters.
\<close>

theorem reads_follow_parameters:
  assumes "represents h obj m" "fetch_param h v = Some p"
  shows "reads_all h obj m
       \<and> reads_all (snd (gamma_prop obj h)) obj m
       \<and> reads_all (snd (gamma_prop obj h)) (obj \<lparr> R_attr := v \<rparr>) (m \<lparr> R := p \<rparr>)
       \<and> reads_all (snd (gamma_prop obj h)) (obj \<lparr> L_attr := v \<rparr>) (m \<lparr> L := p \<rparr>)
       \<and> reads_all (snd (gamma_prop obj h)) (obj \<lparr> G_attr := v \<rparr>) (m \<lparr> G := p \<rparr>)
       \<and> reads_all (snd (gamma_prop obj h)) (obj \<lparr> C_attr := v \<rparr>) (m \<lparr> C := p \<rparr>)"
proof -
  let ?h1 = "snd (gamma_prop obj h)"
  have pg: "preserves h ?h1"
    by (rule reads_preserves [OF gamma_prop_reads [OF assms(1)]])
  have r1: "represents ?h1 obj m" by (rule preserves_represents [OF pg assms(1)])
  have v1: "fetch_param ?h1 v = Some p" by (rule preserves_param [OF pg assms(2)])
  have "represents ?h1 (obj \<lparr> R_attr := v \<rparr>) (m \<lparr> R := p \<rparr>)"
    "represents ?h1 (obj \<lparr> L_attr := v \<rparr>) (m \<lparr> L := p \<rparr>)"
    "represents ?h1 (obj \<lparr> G_attr := v \<rparr>) (m \<lparr> G := p \<rparr>)"
    "represents ?h1 (obj \<lparr> C_attr := v \<rparr>) (m \<lparr> C := p \<rparr>)"
    using r1 v1 by (simp_all add: represents_def)
  then show ?thesis
    using assms(1) r1 by (simp add: represents_all)
qed

theorem reads_follow_parameters_witness:
  "represents store0 obj0 mode0 \<and> fetch_param store0 (Num 9) = Some (Scalar 9)
   \<and> returned (Z_prop obj0 store0) = Inr [5 + \<i> * (1 / 10 ^ 12), 6 + \<i> * (280 / 10 ^ 9)]
   \<and> returned (Z_prop (obj0 \<lparr> R_attr := Num 9 \<rparr>) (snd (gamma_prop obj0 store0)))
        = Inr [9 + \<i> * (1 / 10 ^ 12), 9 + \<i> * (280 / 10 ^ 9)]
   \<and> returned (Z_prop obj0 (snd (gamma_prop obj0 store0)))
        = Inr [5 + \<i> * (1 / 10 ^ 12), 6 + \<i> * (280 / 10 ^ 9)]"
proof -
  have v: "fetch_param store0 (Num 9) = Some (Scalar 9)"
    by (simp add: fetch_param_def)
  have z9: "Z (mode0 \<lparr> R := Scalar 9 \<rparr>) = Inr [9 + \<i> * (1 / 10 ^ 12), 9 + \<i> * (280 / 10 ^ 9)]"
    by (simp add: Z_def series_def mode0_def dc_grid_def init_def Media_init_def
        nudge_def complex_eq_iff)
  show ?thesis
    using reads_follow_parameters [OF represents0 v] represents0 v Z_mode0 z9
    by (simp add: reads_all_def)
qed

end
